theory Spec2Isabelle
  imports Main "HOL-Library.AList"
begin

section \<open>HStream addon: the crawl, cache and resolve engine of addon.js\<close>

text \<open>
  The development follows \<^verbatim>\<open>src/addon.js\<close> from top to bottom: the \<^verbatim>\<open>Cache\<close> class,
  \<^verbatim>\<open>fetchPage\<close>, \<^verbatim>\<open>fetchCatalog\<close>, the page search of the meta and stream handlers, and
  \<^verbatim>\<open>fetchVideoDetails\<close>. Numbers are \<open>int\<close> or \<open>nat\<close>, strings are \<open>string\<close>, a thrown
  exception is the \<open>Inl\<close> of a sum, and everything the browser or the site answers is a
  field of an environment record, so that each theorem holds for every answer.
\<close>

subsection \<open>Strings\<close>

text \<open>\<^verbatim>\<open>String.prototype.startsWith\<close>, \<^verbatim>\<open>includes\<close> and \<^verbatim>\<open>replace\<close> with a string pattern
  (which replaces the first occurrence only).\<close>

fun startsWith :: "string \<Rightarrow> string \<Rightarrow> bool" where
  "startsWith s [] = True"
| "startsWith [] (p # ps) = False"
| "startsWith (c # cs) (p # ps) = (c = p \<and> startsWith cs ps)"

fun includes_str :: "string \<Rightarrow> string \<Rightarrow> bool" where
  "includes_str [] p = (p = [])"
| "includes_str (c # cs) p = (startsWith (c # cs) p \<or> includes_str cs p)"

fun replace_first :: "string \<Rightarrow> string \<Rightarrow> string \<Rightarrow> string" where
  "replace_first [] p r = (if p = [] then r else [])"
| "replace_first (c # cs) p r =
     (if startsWith (c # cs) p then r @ drop (length p) (c # cs)
      else c # replace_first cs p r)"

subsection \<open>The expiring cache (class Cache)\<close>

text \<open>
  \<^verbatim>\<open>this.data\<close> is a \<^verbatim>\<open>Map\<close> from keys to \<^verbatim>\<open>{ value, expires }\<close>; the cache never iterates
  over it, so a partial function is enough. \<^verbatim>\<open>Date.now()\<close> is the argument \<open>now\<close> of every
  operation. A missing or \<^verbatim>\<open>null\<close> third argument of \<^verbatim>\<open>set\<close> is \<open>None\<close>.
\<close>

record 'v cache_item =
  cvalue :: 'v
  expires :: int

record 'v cache =
  data :: "string \<rightharpoonup> 'v cache_item"
  ttl :: int

definition new_cache :: "int \<Rightarrow> 'v cache" where
  "new_cache t = \<lparr>data = Map.empty, ttl = t\<rparr>"

text \<open>\<^verbatim>\<open>get(key)\<close>: the value or \<^verbatim>\<open>null\<close>, and the table, from which an entry that has
  expired is deleted.\<close>

definition cache_get :: "'v cache \<Rightarrow> string \<Rightarrow> int \<Rightarrow> 'v option \<times> 'v cache" where
  "cache_get c key now =
     (case data c key of
        None \<Rightarrow> (None, c)
      | Some item \<Rightarrow>
          if now > expires item then (None, c\<lparr>data := (data c)(key := None)\<rparr>)
          else (Some (cvalue item), c))"

text \<open>\<^verbatim>\<open>customTtl || this.ttl\<close>: a number is falsy exactly when it is 0.\<close>

definition ttl_or :: "int option \<Rightarrow> int \<Rightarrow> int" where
  "ttl_or customTtl t =
     (case customTtl of None \<Rightarrow> t | Some x \<Rightarrow> if x = 0 then t else x)"

definition cache_set :: "'v cache \<Rightarrow> string \<Rightarrow> 'v \<Rightarrow> int option \<Rightarrow> int \<Rightarrow> 'v cache" where
  "cache_set c key v customTtl now =
     c\<lparr>data := (data c)(key \<mapsto> \<lparr>cvalue = v, expires = now + ttl_or customTtl (ttl c)\<rparr>)\<rparr>"

definition cache_clear :: "'v cache \<Rightarrow> 'v cache" where
  "cache_clear c = c\<lparr>data := Map.empty\<rparr>"

text \<open>The three caches of the addon, with their windows in milliseconds.\<close>

definition catalog_ttl :: int where "catalog_ttl = 3 * 60 * 60 * 1000"
definition meta_ttl :: int where "meta_ttl = 6 * 60 * 60 * 1000"
definition stream_ttl :: int where "stream_ttl = 1 * 60 * 60 * 1000"

definition ITEMS_PER_PAGE :: nat where "ITEMS_PER_PAGE = 500"
definition MAX_PAGES :: nat where "MAX_PAGES = 20"
definition CONCURRENT_PAGES :: nat where "CONCURRENT_PAGES = 5"


subsection \<open>Errors and catalog records\<close>

text \<open>The exceptions that the browser automation can raise, one per call that can throw,
  and the \<^verbatim>\<open>TypeError\<close> of a method call on a value that has no such method.\<close>

datatype error =
  Launch_failed | NewPage_failed | Setup_failed | Nav_failed | Selector_timeout | Evaluate_failed
  | Type_error

text \<open>A record pushed by the listing extraction. The two constant fields \<^verbatim>\<open>type: 'movie'\<close>
  and \<^verbatim>\<open>posterShape: 'poster'\<close> are left out.\<close>

record item =
  item_id :: string
  name :: string
  poster :: string
  link :: string
  episodeNumber :: "string option"

subsection \<open>fetchPage\<close>

text \<open>
  What one \<^verbatim>\<open>page.goto\<close> does: it resolves with a response of some status, it resolves with
  no response (then \<^verbatim>\<open>response.status()\<close> throws a TypeError inside the inner \<^verbatim>\<open>try\<close>), or it
  rejects (a timeout or a transport error).
\<close>

datatype nav = Status nat | NoResponse | NavError

text \<open>
  Everything a page answers to one call of \<^verbatim>\<open>fetchPage\<close>: whether \<^verbatim>\<open>browser.newPage()\<close>
  resolves, whether the calls that configure the page do, the outcome of the i-th
  \<^verbatim>\<open>page.goto\<close>, whether \<^verbatim>\<open>div.grid\<close> appears in time, and what the extraction in the page
  returns (\<open>None\<close> when \<^verbatim>\<open>page.evaluate\<close> rejects).
\<close>

record page_env =
  pe_newPage :: bool
  pe_setup :: bool
  pe_goto :: "nat \<Rightarrow> nav"
  pe_grid :: bool
  pe_items :: "item list option"

datatype pevent = Goto | Delay int | WaitGrid bool | Evaluate | ClosePage

text \<open>
  The retry loop, lines 263 to 280. The second argument is \<^verbatim>\<open>retries\<close>, the third counts
  the calls of \<^verbatim>\<open>page.goto\<close>, the fourth is the variable \<^verbatim>\<open>response\<close> (the status of the
  last response assigned, \<open>None\<close> while it is undefined or null). In the second equation
  \<open>r\<close> is the value of \<^verbatim>\<open>retries\<close> after \<^verbatim>\<open>retries--\<close>.
\<close>

fun nav_loop :: "(nat \<Rightarrow> nav) \<Rightarrow> nat \<Rightarrow> nat \<Rightarrow> nat option \<Rightarrow> (error + nat option) \<times> pevent list" where
  "nav_loop goto 0 i response = (Inr response, [])"
| "nav_loop goto (Suc r) i response =
     (case goto i of
        Status s \<Rightarrow>
          if s = 200 then (Inr (Some s), [Goto])
          else (let (res, ev) = nav_loop goto r (Suc i) (Some s)
                in (res, Goto # (if r > 0 then [Delay 2000] else []) @ ev))
      | NoResponse \<Rightarrow>
          if r = 0 then (Inl Nav_failed, [Goto])
          else (let (res, ev) = nav_loop goto r (Suc i) None
                in (res, Goto # Delay 2000 # ev))
      | NavError \<Rightarrow>
          if r = 0 then (Inl Nav_failed, [Goto])
          else (let (res, ev) = nav_loop goto r (Suc i) response
                in (res, Goto # Delay 2000 # ev)))"

text \<open>The body of the outer \<^verbatim>\<open>try\<close>, lines 239 to 393. A timeout of
  \<^verbatim>\<open>waitForSelector('div.grid')\<close> is caught on the spot and ignored.\<close>

definition fetchPage_try :: "page_env \<Rightarrow> (error + item list) \<times> pevent list" where
  "fetchPage_try e =
     (if \<not> pe_setup e then (Inl Setup_failed, [])
      else (case nav_loop (pe_goto e) 3 0 None of
              (Inl err, ev) \<Rightarrow> (Inl err, ev)
            | (Inr response, ev) \<Rightarrow>
                if response \<noteq> Some 200 then (Inr [], ev)
                else (case pe_items e of
                        None \<Rightarrow> (Inl Evaluate_failed, ev @ [WaitGrid (pe_grid e), Evaluate])
                      | Some pageItems \<Rightarrow> (Inr pageItems, ev @ [WaitGrid (pe_grid e), Evaluate]))))"

text \<open>
  \<^verbatim>\<open>fetchPage\<close>: \<^verbatim>\<open>browser.newPage()\<close> is outside the \<^verbatim>\<open>try\<close>, so its failure leaves the
  function; every exception of the body is caught and turned into \<^verbatim>\<open>[]\<close>; the page is
  closed in the \<^verbatim>\<open>finally\<close>, where a failing close is swallowed.
\<close>

definition fetchPage_run :: "page_env \<Rightarrow> (error + item list) \<times> pevent list" where
  "fetchPage_run e =
     (if \<not> pe_newPage e then (Inl NewPage_failed, [])
      else (case fetchPage_try e of
              (Inl err, ev) \<Rightarrow> (Inr [], ev @ [ClosePage])
            | (Inr pageItems, ev) \<Rightarrow> (Inr pageItems, ev @ [ClosePage])))"

definition fetchPage :: "page_env \<Rightarrow> error + item list" where
  "fetchPage e = fst (fetchPage_run e)"

subsection \<open>fetchCatalog\<close>

text \<open>\<^verbatim>\<open>Array.prototype.slice(start, end)\<close> on integers: a negative index counts from the
  end, and both are clamped to the array.\<close>

definition js_slice :: "'a list \<Rightarrow> int \<Rightarrow> int \<Rightarrow> 'a list" where
  "js_slice xs start end =
     (let n = int (length xs);
          k = (if start < 0 then max (n + start) 0 else min start n);
          final = (if end < 0 then max (n + end) 0 else min end n)
      in take (nat (final - k)) (drop (nat k) xs))"

text \<open>\<^verbatim>\<open>Promise.all\<close>: the results in order, or a rejection as soon as one promise rejects.\<close>

fun promise_all :: "(error + 'a) list \<Rightarrow> error + 'a list" where
  "promise_all [] = Inr []"
| "promise_all (Inl e # rs) = Inl e"
| "promise_all (Inr x # rs) = (case promise_all rs of Inl e \<Rightarrow> Inl e | Inr xs \<Rightarrow> Inr (x # xs))"

text \<open>The \<^verbatim>\<open>for\<close> loop of lines 190 to 192.\<close>

definition pagesToLoad :: "nat \<Rightarrow> nat list" where
  "pagesToLoad nextPage =
     map (\<lambda>i. nextPage + i) (takeWhile (\<lambda>i. nextPage + i \<le> MAX_PAGES) [0..<CONCURRENT_PAGES])"

definition globalCacheKey :: "string \<Rightarrow> string \<Rightarrow> string" where
  "globalCacheKey search catalogType =
     (if search \<noteq> [] then ''search-'' @ search @ ''-all''
      else ''catalog-'' @ catalogType @ ''-all'')"

text \<open>
  The site and the browser during one call of \<^verbatim>\<open>fetchCatalog\<close>: whether the k-th
  \<^verbatim>\<open>launchBrowser()\<close> resolves, the page that the k-th session opens for a page number, and
  \<^verbatim>\<open>Date.now()\<close> when the k-th batch is written to the cache.
\<close>

record world =
  w_launch :: "nat \<Rightarrow> bool"
  w_page :: "nat \<Rightarrow> nat \<Rightarrow> page_env"
  w_now :: "nat \<Rightarrow> int"

text \<open>One pass of the \<^verbatim>\<open>while\<close> loop that reached \<^verbatim>\<open>launchBrowser\<close>: the length of
  \<^verbatim>\<open>allItems\<close> when it started, \<^verbatim>\<open>pagesToLoad\<close>, and \<^verbatim>\<open>pageItems\<close> (\<open>None\<close> when the pass
  ended in the \<^verbatim>\<open>catch\<close>).\<close>

record batch =
  b_len :: nat
  b_pages :: "nat list"
  b_items :: "item list option"

record cat_state =
  allItems :: "item list"
  catalogCache :: "item list cache"
  batches :: "batch list"

text \<open>
  The \<^verbatim>\<open>while\<close> loop of lines 185 to 226; \<open>k\<close> counts the passes. The records are objects,
  so \<^verbatim>\<open>filter(Boolean)\<close> keeps every one of them and \<^verbatim>\<open>pages.flat()\<close> is \<open>concat\<close>.
\<close>

function fetchCatalog_loop :: "world \<Rightarrow> int \<Rightarrow> string \<Rightarrow> nat \<Rightarrow> cat_state \<Rightarrow> cat_state" where
  "fetchCatalog_loop w skip key k st =
     (if int (length (allItems st)) < skip + int ITEMS_PER_PAGE
         \<and> length (allItems st) < MAX_PAGES * ITEMS_PER_PAGE
      then
        (let nextPage = length (allItems st) div ITEMS_PER_PAGE + 1;
             pages = pagesToLoad nextPage
         in if pages = [] then st
            else if \<not> w_launch w k
              then st\<lparr>batches := batches st @
                     [\<lparr>b_len = length (allItems st), b_pages = pages, b_items = None\<rparr>]\<rparr>
            else (case promise_all (map (\<lambda>pageNum. fetchPage (w_page w k pageNum)) pages) of
                    Inl e \<Rightarrow>
                      st\<lparr>batches := batches st @
                        [\<lparr>b_len = length (allItems st), b_pages = pages, b_items = None\<rparr>]\<rparr>
                  | Inr ps \<Rightarrow>
                      if concat ps = []
                      then st\<lparr>batches := batches st @
                        [\<lparr>b_len = length (allItems st), b_pages = pages, b_items = Some []\<rparr>]\<rparr>
                      else fetchCatalog_loop w skip key (Suc k)
                        \<lparr>allItems = allItems st @ concat ps,
                         catalogCache =
                           cache_set (catalogCache st) key (allItems st @ concat ps) None (w_now w k),
                         batches = batches st @
                           [\<lparr>b_len = length (allItems st), b_pages = pages,
                             b_items = Some (concat ps)\<rparr>]\<rparr>))
      else st)"
  by pat_completeness auto
termination
proof (relation "measure (\<lambda>(w, skip, key, k, st). MAX_PAGES * ITEMS_PER_PAGE - length (allItems st))",
    goal_cases)
  case 1
  show ?case by simp
next
  case (2 w skip key k st nextPage pages ps)
  from \<open>concat ps \<noteq> []\<close> have pos: "0 < length (concat ps)"
    by (simp del: concat_eq_Nil_conv)
  from 2 have len: "length (allItems st) < MAX_PAGES * ITEMS_PER_PAGE"
    by simp
  from len pos show ?case
    by (simp del: concat_eq_Nil_conv length_greater_0_conv)
qed

declare fetchCatalog_loop.simps [simp del]

record cat_result =
  returned :: "item list"
  final :: cat_state

text \<open>\<^verbatim>\<open>fetchCatalog(skip, search, catalogType)\<close> on the cache \<open>c\<close>, at the time \<open>now\<close> of
  the first cache read.\<close>

definition fetchCatalog ::
  "world \<Rightarrow> int \<Rightarrow> string \<Rightarrow> string \<Rightarrow> item list cache \<Rightarrow> int \<Rightarrow> cat_result" where
  "fetchCatalog w skip search catalogType c now =
     (let key = globalCacheKey search catalogType;
          (cached, c') = cache_get c key now;
          st = fetchCatalog_loop w skip key 0
                 \<lparr>allItems = (case cached of None \<Rightarrow> [] | Some xs \<Rightarrow> xs),
                  catalogCache = c', batches = []\<rparr>
      in \<lparr>returned = js_slice (allItems st) skip
                        (min (skip + int ITEMS_PER_PAGE) (int (length (allItems st)))),
          final = st\<rparr>)"


subsection \<open>The page search of the meta and stream handlers\<close>

text \<open>\<^verbatim>\<open>id.split(':')\<close>, and the second part of the id, which the template literal prints as
  \<^verbatim>\<open>undefined\<close> when the id has no colon.\<close>

fun split_on :: "char \<Rightarrow> string \<Rightarrow> string list" where
  "split_on d [] = [[]]"
| "split_on d (c # cs) =
     (if c = d then [] # split_on d cs
      else (let r = split_on d cs in (c # hd r) # tl r))"

definition catalogType_of :: "string \<Rightarrow> string" where
  "catalogType_of ident =
     (case split_on CHR '':'' ident of
        prefix # catalogType # rest \<Rightarrow> catalogType
      | _ \<Rightarrow> ''undefined'')"

text \<open>
  What the browser and the site answer while the handler searches, by page number:
  \<^verbatim>\<open>launchBrowser()\<close>, \<^verbatim>\<open>browser.newPage()\<close> with the two calls that configure the page, the
  handler's own \<^verbatim>\<open>page.goto\<close>, \<^verbatim>\<open>waitForSelector('div.grid')\<close> with the scroll that follows,
  the page that \<^verbatim>\<open>fetchPage\<close> then opens, and \<^verbatim>\<open>Date.now()\<close> at the cache write.
\<close>

record lworld =
  l_launch :: "nat \<Rightarrow> bool"
  l_newPage :: "nat \<Rightarrow> bool"
  l_goto :: "nat \<Rightarrow> nav"
  l_grid :: "nat \<Rightarrow> bool"
  l_page :: "nat \<Rightarrow> page_env"
  l_now :: "nat \<Rightarrow> int"

text \<open>The variables of the search: \<^verbatim>\<open>cachedItems\<close>, the cache, \<^verbatim>\<open>item\<close>, and the page
  numbers for which a pass of the loop started.\<close>

record look_state =
  cachedItems :: "item list"
  lcache :: "item list cache"
  found_item :: "item option"
  crawled :: "nat list"

text \<open>
  The \<^verbatim>\<open>while (!found && pageNum <= MAX_PAGES)\<close> loop, lines 795 to 846 and again 902 to
  953. \<^verbatim>\<open>found\<close> is set only just before a \<^verbatim>\<open>break\<close>, so it is false at every test of the
  loop condition. Every exception of a pass ends the loop in the \<^verbatim>\<open>catch\<close>.
\<close>

function find_loop :: "lworld \<Rightarrow> string \<Rightarrow> string \<Rightarrow> nat \<Rightarrow> look_state \<Rightarrow> look_state" where
  "find_loop w ident cacheKey pageNum st =
     (if pageNum \<le> MAX_PAGES then
        (let st1 = st\<lparr>crawled := crawled st @ [pageNum]\<rparr>
         in if \<not> l_launch w pageNum \<or> \<not> l_newPage w pageNum then st1
            else (case l_goto w pageNum of
                    Status s \<Rightarrow>
                      if s \<noteq> 200 then st1
                      else if \<not> l_grid w pageNum then st1
                      else (case fetchPage (l_page w pageNum) of
                              Inl e \<Rightarrow> st1
                            | Inr pageItems \<Rightarrow>
                                if pageItems = [] then st1
                                else (let st2 = st1\<lparr>cachedItems := cachedItems st @ pageItems,
                                                    lcache := cache_set (lcache st) cacheKey
                                                      (cachedItems st @ pageItems) None (l_now w pageNum)\<rparr>
                                      in case find (\<lambda>i. item_id i = ident) pageItems of
                                           Some it \<Rightarrow> st2\<lparr>found_item := Some it\<rparr>
                                         | None \<Rightarrow> find_loop w ident cacheKey (Suc pageNum) st2))
                  | NoResponse \<Rightarrow> st1
                  | NavError \<Rightarrow> st1))
      else st)"
  by pat_completeness auto
termination
  by (relation "measure (\<lambda>(w, ident, cacheKey, pageNum, st). Suc MAX_PAGES - pageNum)") auto

declare find_loop.simps [simp del]

text \<open>The handler up to the point where \<^verbatim>\<open>item\<close> is decided: the cache read, the search in
  the cached records, and the loop, which starts with \<^verbatim>\<open>let pageNum = 1\<close>.\<close>

definition find_item :: "lworld \<Rightarrow> string \<Rightarrow> item list cache \<Rightarrow> int \<Rightarrow> look_state" where
  "find_item w ident c now =
     (let cacheKey = ''catalog-'' @ catalogType_of ident @ ''-all'';
          (cached, c') = cache_get c cacheKey now;
          cachedItems0 = (case cached of None \<Rightarrow> [] | Some xs \<Rightarrow> xs);
          st = \<lparr>cachedItems = cachedItems0, lcache = c',
                found_item = find (\<lambda>i. item_id i = ident) cachedItems0, crawled = []\<rparr>
      in case found_item st of
           Some it \<Rightarrow> st
         | None \<Rightarrow> find_loop w ident cacheKey 1 st)"


subsection \<open>JavaScript maps and characters\<close>

text \<open>
  A \<^verbatim>\<open>Map\<close> whose values are read in insertion order is a list of pairs with distinct
  keys: \<^verbatim>\<open>set\<close> on a key that is present replaces the value where it stands, on a new key
  it appends.
\<close>

definition map_set :: "('k \<times> 'v) list \<Rightarrow> 'k \<Rightarrow> 'v \<Rightarrow> ('k \<times> 'v) list" where
  "map_set m k v = AList.update k v m"

definition map_has :: "('k \<times> 'v) list \<Rightarrow> 'k \<Rightarrow> bool" where
  "map_has m k = (map_of m k \<noteq> None)"

definition map_values :: "('k \<times> 'v) list \<Rightarrow> 'v list" where
  "map_values m = map snd m"

definition to_lower :: "char \<Rightarrow> char" where
  "to_lower c =
     (if 65 \<le> (of_char c :: nat) \<and> (of_char c :: nat) \<le> 90
      then char_of ((of_char c :: nat) + 32) else c)"

definition to_upper :: "char \<Rightarrow> char" where
  "to_upper c =
     (if 97 \<le> (of_char c :: nat) \<and> (of_char c :: nat) \<le> 122
      then char_of ((of_char c :: nat) - 32) else c)"

definition toLowerCase :: "string \<Rightarrow> string" where
  "toLowerCase s = map to_lower s"

definition toUpperCase :: "string \<Rightarrow> string" where
  "toUpperCase s = map to_upper s"

definition is_alpha :: "char \<Rightarrow> bool" where
  "is_alpha c =
     ((65 \<le> (of_char c :: nat) \<and> (of_char c :: nat) \<le> 90)
      \<or> (97 \<le> (of_char c :: nat) \<and> (of_char c :: nat) \<le> 122))"

definition is_digit :: "char \<Rightarrow> bool" where
  "is_digit c = (48 \<le> (of_char c :: nat) \<and> (of_char c :: nat) \<le> 57)"

text \<open>
  A character is a code unit below 256. The white space of \<^verbatim>\<open>trim()\<close> among these: tab,
  line feed, vertical tab, form feed, carriage return, space and the no-break space
  U+00A0. The case mappings above are those of JavaScript on ASCII text.
\<close>

definition is_space :: "char \<Rightarrow> bool" where
  "is_space c =
     ((9 \<le> (of_char c :: nat) \<and> (of_char c :: nat) \<le> 13) \<or> (of_char c :: nat) = 32
      \<or> (of_char c :: nat) = 160)"

definition trim :: "string \<Rightarrow> string" where
  "trim s = rev (dropWhile is_space (rev (dropWhile is_space s)))"

text \<open>\<^verbatim>\<open>a || d\<close> for an attribute read with \<^verbatim>\<open>getAttribute\<close>: \<^verbatim>\<open>null\<close> and the empty string
  are falsy.\<close>

definition js_or :: "string option \<Rightarrow> string \<Rightarrow> string" where
  "js_or a d = (case a of None \<Rightarrow> d | Some x \<Rightarrow> if x = [] then d else x)"

text \<open>
  What \<^verbatim>\<open>table[key]\<close> gives on an object literal whose own values are strings: the own
  value, or the value that every object inherits from \<^verbatim>\<open>Object.prototype\<close> under that name
  (a function, or the prototype itself for \<^verbatim>\<open>__proto__\<close>), or \<^verbatim>\<open>undefined\<close>. An inherited
  value is truthy and is not a string; what \<^verbatim>\<open>page.evaluate\<close> hands over of it is not a
  string either.
\<close>

datatype jsval = Str string | Inherited string

definition object_prototype_keys :: "string list" where
  "object_prototype_keys =
     [''constructor'', ''hasOwnProperty'', ''isPrototypeOf'', ''propertyIsEnumerable'',
      ''toLocaleString'', ''toString'', ''valueOf'', ''__proto__'', ''__defineGetter__'',
      ''__defineSetter__'', ''__lookupGetter__'', ''__lookupSetter__'']"

definition js_lookup :: "(string \<times> string) list \<Rightarrow> string \<Rightarrow> jsval option" where
  "js_lookup table key =
     (case map_of table key of
        Some v \<Rightarrow> Some (Str v)
      | None \<Rightarrow> if key \<in> set object_prototype_keys then Some (Inherited key) else None)"

subsection \<open>fetchVideoDetails: the request handler\<close>

record stream =
  url :: string
  quality :: string
  qualityNum :: nat

text \<open>The test \<^verbatim>\<open>/\.(m3u8|mp4|mkv|avi|mov)(\?|$)/i\<close>: somewhere in the URL a dot, one of the
  five extensions in either case, and then a question mark or the end.\<close>

definition media_exts :: "string list" where
  "media_exts = [''m3u8'', ''mp4'', ''mkv'', ''avi'', ''mov'']"

definition ext_here :: "string \<Rightarrow> bool" where
  "ext_here s =
     list_ex (\<lambda>e. startsWith (toLowerCase s) e
                 \<and> (case drop (length e) s of [] \<Rightarrow> True | c # cs \<Rightarrow> c = CHR ''?''))
       media_exts"

fun is_media :: "string \<Rightarrow> bool" where
  "is_media [] = False"
| "is_media (c # cs) = ((c = CHR ''.'' \<and> ext_here cs) \<or> is_media cs)"

definition classify :: "string \<Rightarrow> string" where
  "classify requestUrl =
     (if includes_str requestUrl ''2160'' then ''2160p''
      else if includes_str requestUrl ''1080'' then ''1080p''
      else if includes_str requestUrl ''720'' then ''720p''
      else if includes_str requestUrl ''480'' then ''480p''
      else if includes_str requestUrl ''360'' then ''360p''
      else ''Unknown'')"

text \<open>\<^verbatim>\<open>parseInt(quality) || 0\<close> on a label that starts with neither white space, a sign nor
  \<^verbatim>\<open>0x\<close> (the five labels of \<open>classify\<close> are the only arguments): the leading decimal
  digits, and 0 when there are none.\<close>

definition parseInt_or_0 :: "string \<Rightarrow> nat" where
  "parseInt_or_0 s =
     foldl (\<lambda>n c. 10 * n + ((of_char c :: nat) - 48)) 0 (takeWhile is_digit s)"

datatype req_action = Abort | Continue

text \<open>The handler of \<^verbatim>\<open>page.on('request')\<close>, lines 420 to 446, on the map \<^verbatim>\<open>streams\<close>.\<close>

definition on_request :: "(string \<times> stream) list \<Rightarrow> string \<Rightarrow> (string \<times> stream) list \<times> req_action" where
  "on_request streams requestUrl =
     (if is_media requestUrl then
        (let q = classify requestUrl
         in if q = ''Unknown'' then (streams, Abort)
            else (map_set streams q
                    \<lparr>url = requestUrl, quality = q, qualityNum = parseInt_or_0 q\<rparr>, Abort))
      else (streams, Continue))"

definition on_requests :: "(string \<times> stream) list \<Rightarrow> string list \<Rightarrow> (string \<times> stream) list" where
  "on_requests streams reqs = foldl (\<lambda>m u. fst (on_request m u)) streams reqs"

subsection \<open>fetchVideoDetails: the first evaluation in the page\<close>

text \<open>
  The part of the document that the evaluation reads. A button carries the \<^verbatim>\<open>href\<close> of its
  first link to an \<^verbatim>\<open>.ass\<close>, \<^verbatim>\<open>.srt\<close> or \<^verbatim>\<open>.vtt\<close> file, if it has one, and its text. A
  track carries its properties \<^verbatim>\<open>src\<close>, \<^verbatim>\<open>srclang\<close> and \<^verbatim>\<open>label\<close>, each empty when the
  attribute is absent, and its attribute \<^verbatim>\<open>kind\<close>, \<open>None\<close> when absent. \<open>dom_tracks\<close> are the
  \<^verbatim>\<open>track\<close> elements of the whole document, \<open>v_tracks\<close> those inside one \<^verbatim>\<open>video\<close>.
\<close>

record button =
  bt_link :: "string option"
  bt_text :: string

record track =
  t_src :: string
  t_kind :: "string option"
  t_srclang :: string
  t_label :: string

record source_el =
  se_src :: string
  se_size :: "string option"
  se_label :: "string option"
  se_title :: "string option"

record video =
  v_src :: string
  v_size :: "string option"
  v_sources :: "source_el list"
  v_tracks :: "track list"

record dom =
  dom_buttons :: "button list"
  dom_tracks :: "track list"
  dom_videos :: "video list"

record subtitle =
  sub_url :: string
  sub_lang :: jsval
  sub_id :: jsval
  sub_name :: "string option"
  sub_format :: "string option"

record source_rec =
  src_url :: string
  src_quality :: string

definition langMap :: "(string \<times> string) list" where
  "langMap = [(''English'', ''eng''), (''German'', ''ger''), (''Spanish'', ''spa''),
     (''French'', ''fre''), (''Hindi'', ''hin''), (''Portuguese'', ''por''),
     (''Russian'', ''rus''), (''Italian'', ''ita'')]"

text \<open>One pass of \<^verbatim>\<open>subtitleButtons.forEach\<close>, lines 467 to 502: the key and the entry
  given to \<^verbatim>\<open>subtitles.set\<close>, or \<open>None\<close> at an early return.\<close>

definition button_sub :: "button \<Rightarrow> (string \<times> subtitle) option" where
  "button_sub b =
     (case bt_link b of
        None \<Rightarrow> None
      | Some href \<Rightarrow>
          if href = [] then None
          else (let buttonText = trim (bt_text b);
                    langMatch = takeWhile is_alpha buttonText;
                    lang = (if langMatch = [] then ''English'' else langMatch);
                    langCode = (case js_lookup langMap lang of Some code \<Rightarrow> code
                                | None \<Rightarrow> Str ''eng'');
                    isAuto = includes_str (toLowerCase buttonText) ''auto translated''
                in Some (lang,
                     \<lparr>sub_url = href, sub_lang = langCode, sub_id = langCode,
                      sub_name = Some (lang @ (if isAuto then '' (Auto)'' else [])),
                      sub_format = None\<rparr>)))"

text \<open>One track with a \<^verbatim>\<open>src\<close>, lines 507 to 518 and 551 to 562.\<close>

definition track_sub :: "track \<Rightarrow> (string \<times> subtitle) option" where
  "track_sub t =
     (if t_src t = [] then None
      else (let lang = (if t_srclang t = [] then ''und'' else t_srclang t);
                label = (if t_label t = [] then lang else t_label t)
            in Some (lang,
                 \<lparr>sub_url = t_src t, sub_lang = Str lang, sub_id = Str label, sub_name = None,
                  sub_format = Some (toLowerCase (last (split_on CHR ''.'' (t_src t))))\<rparr>)))"

text \<open>
  The selector \<^verbatim>\<open>track[kind="subtitles"], track[kind="captions"]\<close> of line 506 compares the
  attribute as it is written. The property \<^verbatim>\<open>track.kind\<close> of line 551 is the attribute in
  lower case when that is one of the five kinds, \<^verbatim>\<open>subtitles\<close> when the attribute is
  absent, and \<^verbatim>\<open>metadata\<close> otherwise.
\<close>

definition kind_selected :: "track \<Rightarrow> bool" where
  "kind_selected t = (t_kind t = Some ''subtitles'' \<or> t_kind t = Some ''captions'')"

definition track_kind :: "track \<Rightarrow> string" where
  "track_kind t =
     (case t_kind t of
        None \<Rightarrow> ''subtitles''
      | Some k \<Rightarrow>
          if toLowerCase k \<in> set [''subtitles'', ''captions'', ''descriptions'', ''chapters'',
                                   ''metadata'']
          then toLowerCase k else ''metadata'')"

definition add_sub :: "(string \<times> subtitle) list \<Rightarrow> (string \<times> subtitle) option \<Rightarrow> (string \<times> subtitle) list" where
  "add_sub subtitles e = (case e of None \<Rightarrow> subtitles | Some (k, s) \<Rightarrow> map_set subtitles k s)"

definition add_track :: "(string \<times> subtitle) list \<Rightarrow> track \<Rightarrow> (string \<times> subtitle) list" where
  "add_track subtitles t = (if kind_selected t then add_sub subtitles (track_sub t) else subtitles)"

definition add_video_track :: "(string \<times> subtitle) list \<Rightarrow> track \<Rightarrow> (string \<times> subtitle) list" where
  "add_video_track subtitles t =
     (if track_kind t = ''subtitles'' \<or> track_kind t = ''captions''
      then add_sub subtitles (track_sub t) else subtitles)"

definition add_source :: "(string \<times> source_rec) list \<Rightarrow> source_el \<Rightarrow> (string \<times> source_rec) list" where
  "add_source sources s =
     (if se_src s = [] then sources
      else (let q = js_or (se_size s) (js_or (se_label s) (js_or (se_title s) ''Unknown''))
            in if q \<noteq> ''Unknown''
               then map_set sources q \<lparr>src_url = se_src s, src_quality = q\<rparr>
               else sources))"

text \<open>One pass of \<^verbatim>\<open>videos.forEach\<close>, lines 523 to 564, on the two maps.\<close>

definition add_video ::
  "(string \<times> source_rec) list \<times> (string \<times> subtitle) list \<Rightarrow> video
     \<Rightarrow> (string \<times> source_rec) list \<times> (string \<times> subtitle) list" where
  "add_video acc v =
     (let sources = fst acc; subtitles = snd acc;
          sources1 =
            (if v_src v = [] then sources
             else (let q = js_or (v_size v) ''Default''
                   in if q \<noteq> ''Unknown''
                      then map_set sources q \<lparr>src_url = v_src v, src_quality = q\<rparr>
                      else sources))
      in (foldl add_source sources1 (v_sources v), foldl add_video_track subtitles (v_tracks v)))"

text \<open>The map \<^verbatim>\<open>subtitles\<close> after the buttons and the tracks of the document, lines 464 to
  519.\<close>

definition doc_subtitles :: "dom \<Rightarrow> (string \<times> subtitle) list" where
  "doc_subtitles d =
     foldl add_track (foldl (\<lambda>m b. add_sub m (button_sub b)) [] (dom_buttons d)) (dom_tracks d)"

record video_data =
  vd_sources :: "source_rec list"
  vd_subtitles :: "subtitle list"

definition videoData :: "dom \<Rightarrow> video_data" where
  "videoData d =
     (let r = foldl add_video ([], doc_subtitles d) (dom_videos d)
      in \<lparr>vd_sources = map_values (fst r), vd_subtitles = map_values (snd r)\<rparr>)"


subsection \<open>fetchVideoDetails: merging, ranking and composing\<close>

text \<open>The chain of \<^verbatim>\<open>includes\<close> tests of lines 578 to 583.\<close>

definition rank_of :: "string \<Rightarrow> nat" where
  "rank_of q =
     (if includes_str q ''2160'' then 2160
      else if includes_str q ''1080'' then 1080
      else if includes_str q ''720'' then 720
      else if includes_str q ''480'' then 480
      else if includes_str q ''360'' then 360
      else 0)"

text \<open>One pass of \<^verbatim>\<open>videoData.sources.forEach\<close>, lines 576 to 590.\<close>

definition merge_source :: "(string \<times> stream) list \<Rightarrow> source_rec \<Rightarrow> (string \<times> stream) list" where
  "merge_source streams source =
     (if \<not> map_has streams (src_quality source) \<and> src_quality source \<noteq> ''Unknown''
      then map_set streams (src_quality source)
             \<lparr>url = src_url source, quality = src_quality source,
              qualityNum = rank_of (src_quality source)\<rparr>
      else streams)"

definition qualityDesc :: "(string \<times> string) list" where
  "qualityDesc = [(''2160p'', ''4K Ultra HD''), (''1080p'', ''Full HD''), (''720p'', ''HD''),
     (''480p'', ''SD''), (''360p'', ''Low Quality'')]"

text \<open>\<^verbatim>\<open>qualityDesc[stream.quality] || stream.quality\<close>, and what a template literal prints
  for such a value; the text printed for an inherited value is the platform's, a parameter
  of the model.\<close>

definition quality_title :: "string \<Rightarrow> jsval" where
  "quality_title q = (case js_lookup qualityDesc q of Some v \<Rightarrow> v | None \<Rightarrow> Str q)"

definition template_text :: "(string \<Rightarrow> string) \<Rightarrow> jsval \<Rightarrow> string" where
  "template_text proto_text v = (case v of Str t \<Rightarrow> t | Inherited k \<Rightarrow> proto_text k)"

text \<open>
  The filter of lines 682 to 688. \<open>protocol\<close> is the platform's \<^verbatim>\<open>new URL(u).protocol\<close>,
  \<open>None\<close> when the constructor throws; it is a parameter of the model.
\<close>

definition is_https :: "(string \<Rightarrow> string option) \<Rightarrow> stream \<Rightarrow> bool" where
  "is_https protocol s = (protocol (url s) = Some ''https:'')"

text \<open>\<^verbatim>\<open>.sort((a, b) => b.qualityNum - a.qualityNum)\<close>: \<^verbatim>\<open>Array.prototype.sort\<close> is stable, as
  is the insertion sort on the negated rank.\<close>

definition sort_desc :: "stream list \<Rightarrow> stream list" where
  "sort_desc xs = sort_key (\<lambda>s. - int (qualityNum s)) xs"

definition surviving :: "(string \<Rightarrow> string option) \<Rightarrow> (string \<times> stream) list \<Rightarrow> stream list" where
  "surviving protocol streams = sort_desc (filter (is_https protocol) (map_values streams))"

record sub_out =
  so_id :: jsval
  so_url :: string
  so_lang :: jsval
  so_format :: "string option"
  so_name :: string

record stream_data =
  sd_title :: jsval
  sd_url :: string
  sd_name :: string
  sd_subtitles :: "sub_out list option"

text \<open>\<^verbatim>\<open>Array.prototype.map\<close> with a callback that can throw: the first exception ends
  it.\<close>

fun map_try :: "('a \<Rightarrow> error + 'b) \<Rightarrow> 'a list \<Rightarrow> error + 'b list" where
  "map_try f [] = Inr []"
| "map_try f (x # xs) =
     (case f x of
        Inl e \<Rightarrow> Inl e
      | Inr y \<Rightarrow> (case map_try f xs of Inl e \<Rightarrow> Inl e | Inr ys \<Rightarrow> Inr (y # ys)))"

text \<open>The callback of lines 706 to 712: \<^verbatim>\<open>sub.lang.toUpperCase()\<close> throws a \<^verbatim>\<open>TypeError\<close>
  when \<^verbatim>\<open>sub.lang\<close> is not a string.\<close>

definition sub_out_of :: "subtitle \<Rightarrow> error + sub_out" where
  "sub_out_of sub =
     (case sub_lang sub of
        Str l \<Rightarrow>
          Inr \<lparr>so_id = sub_id sub, so_url = sub_url sub, so_lang = sub_lang sub,
               so_format = sub_format sub, so_name = toUpperCase l @ '' Subtitles''\<rparr>
      | Inherited k \<Rightarrow> Inl Type_error)"

text \<open>The callback of lines 690 to 716; the property \<^verbatim>\<open>subtitles\<close> is set only when there
  are subtitles.\<close>

definition streamData ::
  "(string \<Rightarrow> string) \<Rightarrow> string \<Rightarrow> subtitle list \<Rightarrow> stream \<Rightarrow> error + stream_data" where
  "streamData proto_text title subs s =
     (if subs \<noteq> []
      then (case map_try sub_out_of subs of
              Inl e \<Rightarrow> Inl e
            | Inr outs \<Rightarrow>
                Inr \<lparr>sd_title = quality_title (quality s), sd_url = url s,
                     sd_name = title @ '' ('' @ template_text proto_text (quality_title (quality s))
                                 @ '')'',
                     sd_subtitles = Some outs\<rparr>)
      else Inr \<lparr>sd_title = quality_title (quality s), sd_url = url s,
                sd_name = title @ '' ('' @ template_text proto_text (quality_title (quality s))
                            @ '')'',
                sd_subtitles = None\<rparr>)"

text \<open>Lines 681 to 716: the filter, the sort and the map.\<close>

definition uniqueStreams ::
  "(string \<Rightarrow> string option) \<Rightarrow> (string \<Rightarrow> string) \<Rightarrow> string \<Rightarrow> subtitle list
     \<Rightarrow> (string \<times> stream) list \<Rightarrow> error + stream_data list" where
  "uniqueStreams protocol proto_text title subs streams =
     map_try (streamData proto_text title subs) (surviving protocol streams)"

subsection \<open>fetchVideoDetails\<close>

text \<open>The object returned by the second evaluation in the page, lines 592 to 676.\<close>

record page_meta =
  m_title :: string
  m_japaneseTitle :: "string option"
  m_description :: string
  m_releaseInfo :: "string option"
  m_studio :: "string option"
  m_genres :: "string list"
  m_viewCount :: "string option"
  m_episodeNumber :: "string option"
  m_subtitles :: "subtitle list"

text \<open>What \<^verbatim>\<open>fetchVideoDetails\<close> returns: \<^verbatim>\<open>{ ...meta, streams }\<close>, or the object
  \<^verbatim>\<open>{ title: 'Unknown', streams: [] }\<close>, which has no other property.\<close>

record details =
  d_title :: string
  d_meta :: "page_meta option"
  d_streams :: "stream_data list"

definition degraded :: details where
  "degraded = \<lparr>d_title = ''Unknown'', d_meta = None, d_streams = []\<rparr>"

text \<open>
  What the browser and the page answer to one resolution: whether each awaited call
  resolves (\<^verbatim>\<open>launchBrowser\<close>, \<^verbatim>\<open>newPage\<close>, \<^verbatim>\<open>setRequestInterception\<close>, \<^verbatim>\<open>goto\<close>,
  \<^verbatim>\<open>waitForSelector('video')\<close>), the document read by the first evaluation and the object
  returned by the second (\<open>None\<close> when the evaluation rejects), the URLs of the requests that
  the page sends before the sources are merged and of those it sends from then until the
  browser is closed, the URL parser, the text that a template literal prints for a value
  inherited from \<^verbatim>\<open>Object.prototype\<close>, and \<^verbatim>\<open>Date.now()\<close> at the cache read and at the cache
  write. \<^verbatim>\<open>browser.close()\<close> is taken to resolve.
\<close>

record vd_env =
  e_launch :: bool
  e_newPage :: bool
  e_intercept :: bool
  e_goto :: bool
  e_video :: bool
  e_dom :: "dom option"
  e_meta :: "page_meta option"
  e_requests :: "string list"
  e_late_requests :: "string list"
  e_protocol :: "string \<Rightarrow> string option"
  e_proto_text :: "string \<Rightarrow> string"
  e_now_get :: int
  e_now_set :: int

datatype bevent = Launch | CloseBrowser

text \<open>The map \<^verbatim>\<open>streams\<close> when line 681 reads it.\<close>

definition streams_map :: "vd_env \<Rightarrow> dom \<Rightarrow> (string \<times> stream) list" where
  "streams_map env d =
     on_requests
       (foldl merge_source (on_requests [] (e_requests env)) (vd_sources (videoData d)))
       (e_late_requests env)"

text \<open>The body of the \<^verbatim>\<open>try\<close>, lines 414 to 726, without the cache write: the exception
  or the composed result, and what happened to the browser. The browser is closed at line
  678, before the streams are composed.\<close>

definition fetchVideoDetails_try :: "vd_env \<Rightarrow> (error + details) \<times> bevent list" where
  "fetchVideoDetails_try env =
     (if \<not> e_launch env then (Inl Launch_failed, [])
      else if \<not> e_newPage env then (Inl NewPage_failed, [Launch])
      else if \<not> e_intercept env then (Inl Setup_failed, [Launch])
      else if \<not> e_goto env then (Inl Nav_failed, [Launch])
      else if \<not> e_video env then (Inl Selector_timeout, [Launch])
      else (case e_dom env of
              None \<Rightarrow> (Inl Evaluate_failed, [Launch])
            | Some d \<Rightarrow>
                (case e_meta env of
                   None \<Rightarrow> (Inl Evaluate_failed, [Launch])
                 | Some meta \<Rightarrow>
                     (case uniqueStreams (e_protocol env) (e_proto_text env) (m_title meta)
                             (vd_subtitles (videoData d)) (streams_map env d) of
                        Inl err \<Rightarrow> (Inl err, [Launch, CloseBrowser])
                      | Inr streams \<Rightarrow>
                          (Inr \<lparr>d_title = m_title meta, d_meta = Some meta,
                                d_streams = streams\<rparr>,
                           [Launch, CloseBrowser])))))"

record vd_result =
  vr_result :: details
  vr_cache :: "details cache"
  vr_session :: "bevent list"

definition detailsKey :: "string \<Rightarrow> string" where
  "detailsKey url0 =
     ''details-'' @
       (if includes_str url0 ''hstream.moehttps://''
        then replace_first url0 ''hstream.moehttps://'' ''https://'' else url0)"

text \<open>\<^verbatim>\<open>fetchVideoDetails(url)\<close> on the stream cache \<open>c\<close>. In the \<^verbatim>\<open>catch\<close>, the variable
  \<^verbatim>\<open>browser\<close> is set exactly when the launch had succeeded, and the browser is closed
  there, also when line 678 had closed it already.\<close>

definition fetchVideoDetails :: "vd_env \<Rightarrow> string \<Rightarrow> details cache \<Rightarrow> vd_result" where
  "fetchVideoDetails env url0 c =
     (let cacheKey = detailsKey url0;
          (cached, c1) = cache_get c cacheKey (e_now_get env)
      in case cached of
           Some r \<Rightarrow> \<lparr>vr_result = r, vr_cache = c1, vr_session = []\<rparr>
         | None \<Rightarrow>
             (case fetchVideoDetails_try env of
                (Inr r, ev) \<Rightarrow>
                  \<lparr>vr_result = r, vr_cache = cache_set c1 cacheKey r None (e_now_set env),
                   vr_session = ev\<rparr>
              | (Inl err, ev) \<Rightarrow>
                  \<lparr>vr_result = degraded, vr_cache = c1,
                   vr_session = (if Launch \<in> set ev then ev @ [CloseBrowser] else ev)\<rparr>))"


subsection \<open>Example inputs\<close>

text \<open>A listing record, three sites (one that answers 503 to every navigation, one that
  refuses every connection, one that answers 200 at the third attempt), and the page
  that loads from such a site and yields the given records.\<close>

definition item_a :: item where
  "item_a = \<lparr>item_id = ''hstream:popular:alpha-1'', name = ''Alpha - 1'', poster = '''',
     link = ''https://hstream.moe/hentai/alpha-1'', episodeNumber = Some ''1''\<rparr>"

definition goto_503 :: "nat \<Rightarrow> nav" where
  "goto_503 i = Status 503"

definition goto_refused :: "nat \<Rightarrow> nav" where
  "goto_refused i = NavError"

definition goto_third :: "nat \<Rightarrow> nav" where
  "goto_third i = (if i = 0 then NavError else if i = 1 then Status 503 else Status 200)"

definition page_of :: "(nat \<Rightarrow> nav) \<Rightarrow> item list \<Rightarrow> page_env" where
  "page_of g xs =
     \<lparr>pe_newPage = True, pe_setup = True, pe_goto = g, pe_grid = True, pe_items = Some xs\<rparr>"

subsection \<open>Reading the trace of fetchCatalog\<close>

text \<open>
  The records that a pass appended (none when it ended in the \<^verbatim>\<open>catch\<close>), the condition of
  the \<^verbatim>\<open>while\<close> loop on a sequence, and what the \<^verbatim>\<open>try\<close> of the k-th pass obtains from the
  browser and the site for its pages, lines 200 to 206: \<open>None\<close> when the launch or a page
  fetch throws, and otherwise the records of the pages, in page order.
\<close>

definition fetch_batch :: "world \<Rightarrow> nat \<Rightarrow> nat list \<Rightarrow> item list option" where
  "fetch_batch w k pages =
     (if \<not> w_launch w k then None
      else (case promise_all (map (\<lambda>pageNum. fetchPage (w_page w k pageNum)) pages) of
              Inl e \<Rightarrow> None
            | Inr ps \<Rightarrow> Some (concat ps)))"

definition yield :: "batch \<Rightarrow> item list" where
  "yield b = (case b_items b of None \<Rightarrow> [] | Some xs \<Rightarrow> xs)"

definition more_needed :: "int \<Rightarrow> item list \<Rightarrow> bool" where
  "more_needed skip xs \<longleftrightarrow>
     int (length xs) < skip + int ITEMS_PER_PAGE \<and> length xs < MAX_PAGES * ITEMS_PER_PAGE"

text \<open>A site that always answers 200, and a world whose first session finds the same
  record on page 1 and on page 2 and nothing elsewhere, and whose later sessions find
  nothing.\<close>

definition goto_ok :: "nat \<Rightarrow> nav" where
  "goto_ok i = Status 200"

definition site_twice :: world where
  "site_twice =
     \<lparr>w_launch = (\<lambda>k. True),
      w_page = (\<lambda>k pageNum. if k = 0 \<and> (pageNum = 1 \<or> pageNum = 2)
                  then page_of goto_ok [item_a] else page_of goto_ok []),
      w_now = (\<lambda>k. 1000 + int k)\<rparr>"

text \<open>A second record, a world for the page search whose page 1 carries \<open>item_a\<close> and whose
  other pages carry \<open>item_b\<close>, and a catalog cache that holds 500 records for the
  \<^verbatim>\<open>popular\<close> catalog since time 0.\<close>

definition item_b :: item where
  "item_b = \<lparr>item_id = ''hstream:popular:beta-1'', name = ''Beta - 1'', poster = '''',
     link = ''https://hstream.moe/hentai/beta-1'', episodeNumber = Some ''1''\<rparr>"

definition site_lookup :: lworld where
  "site_lookup =
     \<lparr>l_launch = (\<lambda>pageNum. True), l_newPage = (\<lambda>pageNum. True), l_goto = goto_ok,
      l_grid = (\<lambda>pageNum. True),
      l_page = (\<lambda>pageNum. if pageNum = 1 then page_of goto_ok [item_a]
                  else page_of goto_ok [item_b]),
      l_now = (\<lambda>pageNum. 2000 + int pageNum)\<rparr>"

definition cache_500 :: "item list cache" where
  "cache_500 =
     cache_set (new_cache catalog_ttl) ''catalog-popular-all'' (replicate 500 item_a) None 0"

subsection \<open>Reading the stream map\<close>


definition keyed :: "(string \<times> stream) list \<Rightarrow> bool" where
  "keyed m \<longleftrightarrow>
     distinct (map fst m)
     \<and> list_all (\<lambda>p. quality (snd p) = fst p \<and> qualityNum (snd p) = rank_of (fst p)) m"

text \<open>
  Inputs for the resolver: a URL parser that knows the two schemes of the examples, a text
  for inherited values, the object of a second evaluation, a document with one
  \<^verbatim>\<open>source\<close> element of a given \<^verbatim>\<open>size\<close>, a document with nothing to extract, and the resolution in which every call
  succeeds, the page sends the given requests before the sources are merged, and the
  document is the given one.
\<close>

definition protocol_simple :: "string \<Rightarrow> string option" where
  "protocol_simple u =
     (if startsWith u ''https://'' then Some ''https:''
      else if startsWith u ''http://'' then Some ''http:'' else None)"

definition proto_text_ex :: "string \<Rightarrow> string" where
  "proto_text_ex k = ''[inherited '' @ k @ '']''"

definition meta_ex :: page_meta where
  "meta_ex = \<lparr>m_title = ''Alpha - 1'', m_japaneseTitle = None, m_description = '''',
     m_releaseInfo = None, m_studio = None, m_genres = [], m_viewCount = None,
     m_episodeNumber = Some ''1'', m_subtitles = []\<rparr>"

definition dom_source :: "string \<Rightarrow> dom" where
  "dom_source label =
     \<lparr>dom_buttons = [], dom_tracks = [],
      dom_videos = [\<lparr>v_src = '''', v_size = None,
        v_sources = [\<lparr>se_src = ''https://cdn.example/dom/v.mp4'', se_size = Some label,
                      se_label = None, se_title = None\<rparr>],
        v_tracks = []\<rparr>]\<rparr>"

definition dom_empty :: dom where
  "dom_empty = \<lparr>dom_buttons = [], dom_tracks = [], dom_videos = []\<rparr>"

definition env_of :: "string list \<Rightarrow> dom \<Rightarrow> vd_env" where
  "env_of reqs d =
     \<lparr>e_launch = True, e_newPage = True, e_intercept = True, e_goto = True, e_video = True,
      e_dom = Some d, e_meta = Some meta_ex, e_requests = reqs, e_late_requests = [],
      e_protocol = protocol_simple, e_proto_text = proto_text_ex, e_now_get = 10,
      e_now_set = 20\<rparr>"

text \<open>
  A document with one download button labelled English and one subtitle track of a given
  \<^verbatim>\<open>srclang\<close>; a document with one download button whose text is the word
  \<^verbatim>\<open>constructor\<close>; a resolution in which the video element never appears; and a stream cache
  of window 5 that holds an entry for the detail page since time 0.
\<close>

definition dom_subs :: "string \<Rightarrow> dom" where
  "dom_subs srclang =
     \<lparr>dom_buttons = [\<lparr>bt_link = Some ''/subs/alpha-1.ass'', bt_text = ''English''\<rparr>],
      dom_tracks = [\<lparr>t_src = ''https://hstream.moe/subs/alpha-1.vtt'', t_kind = Some ''subtitles'',
                     t_srclang = srclang, t_label = ''English''\<rparr>],
      dom_videos = []\<rparr>"

definition dom_constructor :: dom where
  "dom_constructor =
     \<lparr>dom_buttons = [\<lparr>bt_link = Some ''/subs/alpha-1.ass'', bt_text = ''constructor''\<rparr>],
      dom_tracks = [], dom_videos = []\<rparr>"

definition env_no_video :: vd_env where
  "env_no_video = (env_of [] dom_empty)\<lparr>e_video := False\<rparr>"

definition cache_stale :: "details cache" where
  "cache_stale =
     cache_set (new_cache 5) ''details-https://hstream.moe/hentai/alpha-1'' degraded None 0"

section \<open>Properties\<close>

subsection \<open>The expiring cache\<close>

text \<open>
  Claim C9, as amended. \<^verbatim>\<open>get\<close> on a key with no entry returns absent and leaves the table
  as it is; \<^verbatim>\<open>get\<close> on an entry whose expiry has passed (\<open>now > expires\<close>) deletes that entry
  and returns absent; \<^verbatim>\<open>get\<close> on an entry that has not expired returns its value and leaves
  the table as it is. Nothing else evicts: \<^verbatim>\<open>get\<close> and \<^verbatim>\<open>set\<close> leave the entry of every
  other key untouched, expired or not. \<^verbatim>\<open>set\<close> replaces the entry of its key wholesale, with
  the expiry \<open>now + ttl\<close> of the cache when the override is absent, null or 0, and
  \<open>now + x\<close> for an override \<open>x\<close> other than 0.
\<close>

theorem cache_get_set_contract:
  fixes c :: "'v cache"
  shows "(data c key = None \<longrightarrow> cache_get c key now = (None, c))
    \<and> (\<forall>item. data c key = Some item \<and> now > expires item \<longrightarrow>
          cache_get c key now = (None, c\<lparr>data := (data c)(key := None)\<rparr>)
          \<and> data (snd (cache_get c key now)) key = None)
    \<and> (\<forall>item. data c key = Some item \<and> \<not> now > expires item \<longrightarrow>
          cache_get c key now = (Some (cvalue item), c))
    \<and> (\<forall>k. k \<noteq> key \<longrightarrow> data (snd (cache_get c key now)) k = data c k)
    \<and> (\<forall>k. k \<noteq> key \<longrightarrow> data (cache_set c key v customTtl now) k = data c k)
    \<and> data (cache_set c key v None now) key = Some \<lparr>cvalue = v, expires = now + ttl c\<rparr>
    \<and> (\<forall>x. x \<noteq> 0 \<longrightarrow>
          data (cache_set c key v (Some x) now) key = Some \<lparr>cvalue = v, expires = now + x\<rparr>)
    \<and> data (cache_set c key v (Some 0) now) key = Some \<lparr>cvalue = v, expires = now + ttl c\<rparr>
    \<and> ttl (cache_set c key v customTtl now) = ttl c"
  by (auto simp: cache_get_def cache_set_def ttl_or_def split: option.splits)

text \<open>The contract at a cache of window 1000 that holds 7 under \<open>a\<close> since time 5: expired at
  1006, alive at 1005, overwritten with an override of 20 at time 6, and untouched by a
  write to \<open>b\<close> at time 2000.\<close>

theorem cache_get_set_contract_witness:
  "cache_get (cache_set (new_cache 1000) ''a'' (7::nat) None 5) ''a'' 1006
     = (None, new_cache 1000)
   \<and> cache_get (cache_set (new_cache 1000) ''a'' (7::nat) None 5) ''a'' 1005
     = (Some 7, cache_set (new_cache 1000) ''a'' 7 None 5)
   \<and> cache_get (new_cache 1000 :: nat cache) ''a'' 0 = (None, new_cache 1000)
   \<and> data (cache_set (cache_set (new_cache 1000) ''a'' (7::nat) None 5) ''a'' 8 (Some 20) 6) ''a''
     = Some \<lparr>cvalue = 8, expires = 26\<rparr>
   \<and> data (cache_set (cache_set (new_cache 1000) ''a'' (7::nat) None 5) ''b'' 8 (Some 20) 2000) ''a''
     = Some \<lparr>cvalue = 7, expires = 1005\<rparr>"
  using cache_get_set_contract [of "cache_set (new_cache 1000) ''a'' (7::nat) None 5" "''a''" 1006 8 "Some 20"]
    cache_get_set_contract [of "cache_set (new_cache 1000) ''a'' (7::nat) None 5" "''a''" 1005]
    cache_get_set_contract [of "new_cache 1000 :: nat cache" "''a''" 0 7]
    cache_get_set_contract [of "cache_set (new_cache 1000) ''a'' (7::nat) None 5" "''a''" 6 8]
    cache_get_set_contract [of "cache_set (new_cache 1000) ''a'' (7::nat) None 5" "''b''" 2000 8 "Some 20"]
  by (simp add: cache_get_def cache_set_def new_cache_def ttl_or_def)

text \<open>Claim C9 as stated fails for an override of 0: \<^verbatim>\<open>set('a', 7, 0)\<close> at time 5 on a cache
  of window 1000 stores the expiry 1005, not 5.\<close>

theorem cache_set_zero_ttl_counterexample:
  "data (cache_set (new_cache 1000) ''a'' (7::nat) (Some 0) 5) ''a''
     \<noteq> Some \<lparr>cvalue = 7, expires = 5 + 0\<rparr>
   \<and> data (cache_set (new_cache 1000) ''a'' (7::nat) (Some 0) 5) ''a''
     = Some \<lparr>cvalue = 7, expires = 5 + 1000\<rparr>"
  by (simp add: cache_set_def new_cache_def ttl_or_def)

subsection \<open>fetchPage: retries and what the caller sees\<close>

text \<open>The retry loop by the first attempt that is answered with status 200.\<close>

lemma nav_first:
  "g 0 = Status 200 \<Longrightarrow> nav_loop g 3 0 None = (Inr (Some 200), [Goto])"
  by (simp add: numeral_3_eq_3)

lemma nav_second:
  "g 0 \<noteq> Status 200 \<Longrightarrow> g 1 = Status 200 \<Longrightarrow>
   nav_loop g 3 0 None = (Inr (Some 200), [Goto, Delay 2000, Goto])"
  by (cases "g 0") (simp_all add: numeral_3_eq_3)

lemma nav_third:
  "g 0 \<noteq> Status 200 \<Longrightarrow> g 1 \<noteq> Status 200 \<Longrightarrow> g 2 = Status 200 \<Longrightarrow>
   nav_loop g 3 0 None = (Inr (Some 200), [Goto, Delay 2000, Goto, Delay 2000, Goto])"
  by (cases "g 0"; cases "g 1") (simp_all add: numeral_3_eq_3 numeral_2_eq_2)

lemma nav_exhausted:
  "g 0 \<noteq> Status 200 \<Longrightarrow> g 1 \<noteq> Status 200 \<Longrightarrow> g 2 \<noteq> Status 200 \<Longrightarrow>
   snd (nav_loop g 3 0 None) = [Goto, Delay 2000, Goto, Delay 2000, Goto]
   \<and> fst (nav_loop g 3 0 None) \<noteq> Inr (Some 200)"
  by (cases "g 0"; cases "g 1"; cases "g 2") (simp_all add: numeral_3_eq_3 numeral_2_eq_2)

lemma below_3: "(i::nat) < 3 \<longleftrightarrow> i = 0 \<or> i = 1 \<or> i = 2"
  by auto

lemma fetchPage_exhausted:
  assumes "pe_newPage e" "pe_goto e 0 \<noteq> Status 200" "pe_goto e 1 \<noteq> Status 200"
    "pe_goto e 2 \<noteq> Status 200"
  shows "fetchPage e = Inr []"
proof -
  obtain res ev where r: "nav_loop (pe_goto e) 3 0 None = (res, ev)"
    by (cases "nav_loop (pe_goto e) 3 0 None")
  with nav_exhausted [OF assms(2-4)] have "res \<noteq> Inr (Some 200)"
    by simp
  with r assms(1) show ?thesis
    by (cases res) (simp_all add: fetchPage_def fetchPage_run_def fetchPage_try_def)
qed

lemma fetchPage_never_throws:
  assumes "pe_newPage e"
  shows "\<exists>pageItems. fetchPage e = Inr pageItems"
proof -
  obtain res ev where "fetchPage_try e = (res, ev)"
    by (cases "fetchPage_try e")
  with assms show ?thesis
    by (cases res) (simp_all add: fetchPage_def fetchPage_run_def)
qed

lemma fetchPage_loaded:
  assumes "pe_newPage e" "pe_setup e" "fst (nav_loop (pe_goto e) 3 0 None) = Inr (Some 200)"
  shows "fetchPage e = Inr (case pe_items e of None \<Rightarrow> [] | Some pageItems \<Rightarrow> pageItems)"
proof -
  obtain ev where "nav_loop (pe_goto e) 3 0 None = (Inr (Some 200), ev)"
    using assms(3) by (cases "nav_loop (pe_goto e) 3 0 None") simp
  with assms(1,2) show ?thesis
    by (simp add: fetchPage_def fetchPage_run_def fetchPage_try_def split: option.splits)
qed

text \<open>
  Claim C2, as amended. With \<open>n\<close> the number of calls of \<^verbatim>\<open>page.goto\<close>: there are between
  one and three, a delay of 2000 ms stands between two consecutive calls and nowhere else,
  every call but the last was answered with something other than status 200, and fewer
  than three calls are made only when the last one was answered with status 200. Once the
  page is open, \<^verbatim>\<open>fetchPage\<close> returns a list and never throws; when none of the three
  attempts is answered with status 200 (a response of another status, no response, or a
  rejected navigation), it returns the empty list; when one is, it returns what the
  extraction yields, the empty list if the extraction throws.
\<close>

theorem fetchPage_retry:
  "(\<exists>n. 1 \<le> n \<and> n \<le> 3
        \<and> snd (nav_loop (pe_goto e) 3 0 None) = Goto # concat (replicate (n - 1) [Delay 2000, Goto])
        \<and> (\<forall>i<n - 1. pe_goto e i \<noteq> Status 200)
        \<and> (n < 3 \<longrightarrow> pe_goto e (n - 1) = Status 200))
   \<and> (pe_newPage e \<longrightarrow> (\<exists>pageItems. fetchPage e = Inr pageItems))
   \<and> (pe_newPage e \<and> (\<forall>i<3. pe_goto e i \<noteq> Status 200) \<longrightarrow> fetchPage e = Inr [])
   \<and> (pe_newPage e \<and> pe_setup e \<and> (\<exists>i<3. pe_goto e i = Status 200) \<longrightarrow>
        fetchPage e = Inr (case pe_items e of None \<Rightarrow> [] | Some pageItems \<Rightarrow> pageItems))"
proof (intro conjI impI)
  let ?g = "pe_goto e"
  consider (a) "?g 0 = Status 200"
    | (b) "?g 0 \<noteq> Status 200" "?g 1 = Status 200"
    | (c) "?g 0 \<noteq> Status 200" "?g 1 \<noteq> Status 200" "?g 2 = Status 200"
    | (d) "?g 0 \<noteq> Status 200" "?g 1 \<noteq> Status 200" "?g 2 \<noteq> Status 200"
    by blast
  then show "\<exists>n. 1 \<le> n \<and> n \<le> 3
        \<and> snd (nav_loop ?g 3 0 None) = Goto # concat (replicate (n - 1) [Delay 2000, Goto])
        \<and> (\<forall>i<n - 1. ?g i \<noteq> Status 200)
        \<and> (n < 3 \<longrightarrow> ?g (n - 1) = Status 200)"
  proof cases
    case a
    then show ?thesis
      by (intro exI [of _ 1]) (simp add: nav_first)
  next
    case b
    then show ?thesis
      by (intro exI [of _ 2]) (simp add: nav_second)
  next
    case c
    then show ?thesis
      by (intro exI [of _ 3]) (simp add: nav_third numeral_2_eq_2 less_Suc_eq)
  next
    case d
    then show ?thesis
      using nav_exhausted [of ?g]
      by (intro exI [of _ 3]) (simp add: numeral_2_eq_2 less_Suc_eq)
  qed
next
  assume "pe_newPage e"
  then show "\<exists>pageItems. fetchPage e = Inr pageItems"
    by (rule fetchPage_never_throws)
next
  assume "pe_newPage e \<and> (\<forall>i<3. pe_goto e i \<noteq> Status 200)"
  then show "fetchPage e = Inr []"
    by (intro fetchPage_exhausted) (simp_all add: below_3)
next
  assume h: "pe_newPage e \<and> pe_setup e \<and> (\<exists>i<3. pe_goto e i = Status 200)"
  let ?g = "pe_goto e"
  from h consider (a) "?g 0 = Status 200"
    | (b) "?g 0 \<noteq> Status 200" "?g 1 = Status 200"
    | (c) "?g 0 \<noteq> Status 200" "?g 1 \<noteq> Status 200" "?g 2 = Status 200"
    by (auto simp: below_3)
  then have "fst (nav_loop ?g 3 0 None) = Inr (Some 200)"
    by cases (simp_all add: nav_first nav_second nav_third)
  with h show "fetchPage e = Inr (case pe_items e of None \<Rightarrow> [] | Some pageItems \<Rightarrow> pageItems)"
    by (intro fetchPage_loaded) simp_all
qed

text \<open>The theorem at a site that always answers 503 and at one that answers 200 at the
  third attempt.\<close>

theorem fetchPage_retry_witness:
  "fetchPage (page_of goto_503 [item_a]) = Inr []
   \<and> fetchPage (page_of goto_third [item_a]) = Inr [item_a]
   \<and> snd (nav_loop goto_third 3 0 None) = [Goto, Delay 2000, Goto, Delay 2000, Goto]"
proof (intro conjI)
  show "fetchPage (page_of goto_503 [item_a]) = Inr []"
    by (rule fetchPage_retry [THEN conjunct2, THEN conjunct2, THEN conjunct1, THEN mp])
      (simp add: page_of_def goto_503_def)
next
  have "(2::nat) < 3 \<and> goto_third 2 = Status 200"
    by (simp add: goto_third_def)
  then have "\<exists>i<3. goto_third i = Status 200"
    by (rule exI)
  then have "pe_newPage (page_of goto_third [item_a]) \<and> pe_setup (page_of goto_third [item_a])
      \<and> (\<exists>i<3. pe_goto (page_of goto_third [item_a]) i = Status 200)"
    by (simp add: page_of_def)
  from fetchPage_retry [THEN conjunct2, THEN conjunct2, THEN conjunct2, THEN mp, OF this]
  show "fetchPage (page_of goto_third [item_a]) = Inr [item_a]"
    by (simp add: page_of_def)
next
  show "snd (nav_loop goto_third 3 0 None) = [Goto, Delay 2000, Goto, Delay 2000, Goto]"
    by (simp add: goto_third_def numeral_3_eq_3)
qed

text \<open>Claim C2 as stated fails: after three answers of status 503, and after three refused
  connections, the caller of \<^verbatim>\<open>fetchPage\<close> receives the empty list, not an error.\<close>

theorem fetchPage_exhausted_counterexample:
  "fetchPage (page_of goto_503 [item_a]) = Inr []
   \<and> fetchPage (page_of goto_refused [item_a]) = Inr []
   \<and> fetchPage (page_of goto_refused [item_a]) \<noteq> Inl Nav_failed"
  by (simp add: fetchPage_def fetchPage_run_def fetchPage_try_def page_of_def goto_503_def
      goto_refused_def numeral_3_eq_3)

subsection \<open>fetchCatalog: the loop, the window and the accumulated sequence\<close>

lemma upt_0_5: "[0..<CONCURRENT_PAGES] = [0, 1, 2, 3, 4]"
  by (simp add: CONCURRENT_PAGES_def upt_rec)

lemma pagesToLoad_first:
  assumes "n < MAX_PAGES * ITEMS_PER_PAGE"
  shows "pagesToLoad (n div ITEMS_PER_PAGE + 1) \<noteq> []
    \<and> hd (pagesToLoad (n div ITEMS_PER_PAGE + 1)) = n div ITEMS_PER_PAGE + 1"
proof -
  from assms have "n div ITEMS_PER_PAGE < MAX_PAGES"
    by (simp add: MAX_PAGES_def ITEMS_PER_PAGE_def)
  then show ?thesis
    by (simp add: pagesToLoad_def upt_0_5)
qed

text \<open>The passes that the loop adds to the trace: what each one saw and appended, that
  only the last one can fail or come back empty, and that the loop does not stop early.\<close>

lemma loop_trace:
  "\<exists>bs. batches (fetchCatalog_loop w skip key k st) = batches st @ bs
     \<and> allItems (fetchCatalog_loop w skip key k st) = allItems st @ concat (map yield bs)
     \<and> (\<forall>i<length bs. b_len (bs ! i) = length (allItems st) + length (concat (map yield (take i bs)))
           \<and> more_needed skip (allItems st @ concat (map yield (take i bs)))
           \<and> b_pages (bs ! i) = pagesToLoad (b_len (bs ! i) div ITEMS_PER_PAGE + 1)
           \<and> b_items (bs ! i) = fetch_batch w (k + i) (b_pages (bs ! i)))
     \<and> (\<forall>i. Suc i < length bs \<longrightarrow> (\<exists>xs. b_items (bs ! i) = Some xs \<and> xs \<noteq> []))
     \<and> ((bs = [] \<or> (\<exists>xs. b_items (last bs) = Some xs \<and> xs \<noteq> []))
           \<longrightarrow> \<not> more_needed skip (allItems (fetchCatalog_loop w skip key k st)))"
proof (induction w skip key k st rule: fetchCatalog_loop.induct)
  case (1 w skip key k st)
  let ?n = "length (allItems st)"
  let ?pages = "pagesToLoad (?n div ITEMS_PER_PAGE + 1)"
  let ?b = "\<lambda>r. \<lparr>b_len = ?n, b_pages = ?pages, b_items = r\<rparr>"
  show ?case
  proof (cases "more_needed skip (allItems st)")
    case False
    then have "fetchCatalog_loop w skip key k st = st"
      unfolding more_needed_def by (subst fetchCatalog_loop.simps) (rule if_not_P)
    with False show ?thesis
      by (intro exI [of _ "[]"]) simp
  next
    case True
    then have ne: "?pages \<noteq> []"
      using pagesToLoad_first [of ?n] by (simp add: more_needed_def)
    consider (fail) "\<not> w_launch w k \<or> (\<exists>e. promise_all (map (\<lambda>p. fetchPage (w_page w k p)) ?pages) = Inl e)"
      | (empty) ps where "w_launch w k" "promise_all (map (\<lambda>p. fetchPage (w_page w k p)) ?pages) = Inr ps" "concat ps = []"
      | (more) ps where "w_launch w k" "promise_all (map (\<lambda>p. fetchPage (w_page w k p)) ?pages) = Inr ps" "concat ps \<noteq> []"
      by (cases "promise_all (map (\<lambda>p. fetchPage (w_page w k p)) ?pages)") auto
    then show ?thesis
    proof cases
      case fail
      then have fb: "fetch_batch w k ?pages = None"
        by (auto simp: fetch_batch_def)
      from fail True ne have "fetchCatalog_loop w skip key k st = st\<lparr>batches := batches st @ [?b None]\<rparr>"
        by (subst fetchCatalog_loop.simps) (auto simp: more_needed_def Let_def)
      with True fb show ?thesis
        by (intro exI [of _ "[?b None]"]) (simp add: yield_def)
    next
      case empty
      then have fb: "fetch_batch w k ?pages = Some []"
        by (simp add: fetch_batch_def del: concat_eq_Nil_conv)
      from empty True ne have "fetchCatalog_loop w skip key k st = st\<lparr>batches := batches st @ [?b (Some [])]\<rparr>"
        by (subst fetchCatalog_loop.simps) (simp add: more_needed_def Let_def del: concat_eq_Nil_conv)
      with True fb show ?thesis
        by (intro exI [of _ "[?b (Some [])]"]) (simp add: yield_def)
    next
      case more
      then have fb: "fetch_batch w k ?pages = Some (concat ps)"
        by (simp add: fetch_batch_def)
      let ?st' = "\<lparr>allItems = allItems st @ concat ps,
                  catalogCache = cache_set (catalogCache st) key (allItems st @ concat ps) None (w_now w k),
                  batches = batches st @ [?b (Some (concat ps))]\<rparr>"
      from True ne more have eq: "fetchCatalog_loop w skip key k st = fetchCatalog_loop w skip key (Suc k) ?st'"
        by (subst fetchCatalog_loop.simps) (simp add: more_needed_def Let_def del: concat_eq_Nil_conv)
      from True ne more have "\<exists>bs. batches (fetchCatalog_loop w skip key (Suc k) ?st') = batches ?st' @ bs
     \<and> allItems (fetchCatalog_loop w skip key (Suc k) ?st') = allItems ?st' @ concat (map yield bs)
     \<and> (\<forall>i<length bs. b_len (bs ! i) = length (allItems ?st') + length (concat (map yield (take i bs)))
           \<and> more_needed skip (allItems ?st' @ concat (map yield (take i bs)))
           \<and> b_pages (bs ! i) = pagesToLoad (b_len (bs ! i) div ITEMS_PER_PAGE + 1)
           \<and> b_items (bs ! i) = fetch_batch w (Suc k + i) (b_pages (bs ! i)))
     \<and> (\<forall>i. Suc i < length bs \<longrightarrow> (\<exists>xs. b_items (bs ! i) = Some xs \<and> xs \<noteq> []))
     \<and> ((bs = [] \<or> (\<exists>xs. b_items (last bs) = Some xs \<and> xs \<noteq> []))
           \<longrightarrow> \<not> more_needed skip (allItems (fetchCatalog_loop w skip key (Suc k) ?st')))"
        by (intro "1.IH" [of "?n div ITEMS_PER_PAGE + 1" ?pages ps]) (simp_all add: more_needed_def del: concat_eq_Nil_conv)
      then obtain bs where bs:
        "batches (fetchCatalog_loop w skip key (Suc k) ?st') = batches ?st' @ bs"
        "allItems (fetchCatalog_loop w skip key (Suc k) ?st') = allItems ?st' @ concat (map yield bs)"
        "\<forall>i<length bs. b_len (bs ! i) = length (allItems ?st') + length (concat (map yield (take i bs)))
           \<and> more_needed skip (allItems ?st' @ concat (map yield (take i bs)))
           \<and> b_pages (bs ! i) = pagesToLoad (b_len (bs ! i) div ITEMS_PER_PAGE + 1)
           \<and> b_items (bs ! i) = fetch_batch w (Suc k + i) (b_pages (bs ! i))"
        "\<forall>i. Suc i < length bs \<longrightarrow> (\<exists>xs. b_items (bs ! i) = Some xs \<and> xs \<noteq> [])"
        "(bs = [] \<or> (\<exists>xs. b_items (last bs) = Some xs \<and> xs \<noteq> []))
           \<longrightarrow> \<not> more_needed skip (allItems (fetchCatalog_loop w skip key (Suc k) ?st'))"
        by blast
      let ?bs = "?b (Some (concat ps)) # bs"
      have y: "yield (?b (Some (concat ps))) = concat ps"
        by (simp add: yield_def)
      have c1: "batches (fetchCatalog_loop w skip key k st) = batches st @ ?bs"
        using eq bs(1) by simp
      have c2: "allItems (fetchCatalog_loop w skip key k st) = allItems st @ concat (map yield ?bs)"
        using eq bs(2) y by simp
      have c3: "b_len (?bs ! i) = length (allItems st) + length (concat (map yield (take i ?bs)))
           \<and> more_needed skip (allItems st @ concat (map yield (take i ?bs)))
           \<and> b_pages (?bs ! i) = pagesToLoad (b_len (?bs ! i) div ITEMS_PER_PAGE + 1)
           \<and> b_items (?bs ! i) = fetch_batch w (k + i) (b_pages (?bs ! i))"
        if "i < length ?bs" for i
      proof (cases i)
        case 0
        with True fb show ?thesis by simp
      next
        case (Suc j)
        with that have "j < length bs" by simp
        with bs(3) Suc y show ?thesis by simp
      qed
      have c4: "\<exists>xs. b_items (?bs ! i) = Some xs \<and> xs \<noteq> []" if "Suc i < length ?bs" for i
      proof (cases i)
        case 0
        with more(3) show ?thesis by (simp del: concat_eq_Nil_conv)
      next
        case (Suc j)
        with that bs(4) show ?thesis by simp
      qed
      have c5: "\<not> more_needed skip (allItems (fetchCatalog_loop w skip key k st))"
        if "?bs = [] \<or> (\<exists>xs. b_items (last ?bs) = Some xs \<and> xs \<noteq> [])"
      proof (cases "bs = []")
        case True
        with bs(5) eq show ?thesis by simp
      next
        case False
        with that bs(5) eq show ?thesis by simp
      qed
      from c1 c2 c3 c4 c5 show ?thesis
        by (intro exI [of _ ?bs]) blast
    qed
  qed
qed


lemma pagesToLoad_1: "pagesToLoad (Suc 0) = [1, 2, 3, 4, 5]"
  by (simp add: pagesToLoad_def upt_0_5 MAX_PAGES_def)

lemma fetchPage_page_of: "fetchPage (page_of goto_ok xs) = Inr xs"
  by (simp add: fetchPage_def fetchPage_run_def fetchPage_try_def page_of_def goto_ok_def numeral_3_eq_3)

lemma site_twice_fields:
  "w_launch site_twice k"
  "w_page site_twice k pageNum =
     (if k = 0 \<and> (pageNum = 1 \<or> pageNum = 2) then page_of goto_ok [item_a] else page_of goto_ok [])"
  "w_now site_twice k = 1000 + int k"
  by (simp_all add: site_twice_def)

lemma site_twice_run:
  "final (fetchCatalog site_twice 0 [] ''popular'' (new_cache catalog_ttl) 0) =
     \<lparr>allItems = [item_a, item_a],
      catalogCache = cache_set (new_cache catalog_ttl) ''catalog-popular-all'' [item_a, item_a] None 1000,
      batches = [\<lparr>b_len = 0, b_pages = [1, 2, 3, 4, 5], b_items = Some [item_a, item_a]\<rparr>,
                 \<lparr>b_len = 2, b_pages = [1, 2, 3, 4, 5], b_items = Some []\<rparr>]\<rparr>"
  by (simp add: fetchCatalog_def globalCacheKey_def cache_get_def new_cache_def Let_def
      fetchCatalog_loop.simps [of site_twice 0 _ 0] fetchCatalog_loop.simps [of site_twice 0 _ "Suc 0"]
      pagesToLoad_1 site_twice_fields fetchPage_page_of ITEMS_PER_PAGE_def MAX_PAGES_def)

lemma js_slice_window:
  assumes "0 \<le> skip"
  shows "js_slice xs skip (min (skip + 500) (int (length xs))) = take 500 (drop (nat skip) xs)"
proof (cases "skip \<le> int (length xs)")
  case True
  with assms have "nat (min (skip + 500) (int (length xs)) - skip) = min 500 (length xs - nat skip)"
    by (simp add: min_def) linarith
  with True assms show ?thesis
    by (simp add: js_slice_def Let_def min_def)
next
  case False
  with assms show ?thesis
    by (simp add: js_slice_def Let_def min_def)
qed

lemma fetchCatalog_final:
  "final (fetchCatalog w skip search catalogType c now) =
     fetchCatalog_loop w skip (globalCacheKey search catalogType) 0
       \<lparr>allItems = (case fst (cache_get c (globalCacheKey search catalogType) now) of
                      None \<Rightarrow> [] | Some xs \<Rightarrow> xs),
        catalogCache = snd (cache_get c (globalCacheKey search catalogType) now),
        batches = []\<rparr>"
  by (simp add: fetchCatalog_def Let_def split: prod.splits)

lemma fetchCatalog_returned:
  "returned (fetchCatalog w skip search catalogType c now) =
     js_slice (allItems (final (fetchCatalog w skip search catalogType c now))) skip
       (min (skip + int ITEMS_PER_PAGE)
          (int (length (allItems (final (fetchCatalog w skip search catalogType c now))))))"
  by (simp add: fetchCatalog_def Let_def split: prod.splits)

text \<open>
  Claim C5. Let \<open>cached\<close> be the sequence that \<^verbatim>\<open>fetchCatalog\<close> reads from the cache under
  the key of the query (empty on a miss), \<open>st\<close> the state when the loop has ended and \<open>bs\<close>
  its passes. \<^verbatim>\<open>fetchCatalog\<close> returns \<^verbatim>\<open>allItems.slice(skip, min(skip + 500, allItems.length))\<close>,
  which for \<open>skip \<ge> 0\<close> is the window of at most 500 records from position \<open>skip\<close> of the
  accumulated sequence, and the accumulated sequence is \<open>cached\<close> followed by what the
  passes fetched. The loop makes no pass exactly when \<open>cached\<close> already has \<open>skip + 500\<close> or
  \<open>20 * 500\<close> records. Pass \<open>i\<close> starts with \<open>cached\<close> and the records of the earlier passes,
  which are fewer than \<open>skip + 500\<close> and fewer than \<open>20 * 500\<close>; it asks session \<open>i\<close> of the
  site for the pages of \<^verbatim>\<open>pagesToLoad\<close>, which start at \<open>b_len div 500 + 1\<close>, each through
  \<^verbatim>\<open>fetchPage\<close>; and it is the last pass exactly when it yields no record or the records
  accumulated after it reach \<open>skip + 500\<close> or \<open>20 * 500\<close>: as long as records are needed and
  the site yields some, the loop goes on. The function is total, so the call always
  returns.
\<close>

theorem fetchCatalog_window:
  fixes w skip search catalogType c now
  defines "st \<equiv> final (fetchCatalog w skip search catalogType c now)"
  defines "bs \<equiv> batches (final (fetchCatalog w skip search catalogType c now))"
  defines "cached \<equiv> (case fst (cache_get c (globalCacheKey search catalogType) now) of
                        None \<Rightarrow> [] | Some xs \<Rightarrow> xs)"
  shows "returned (fetchCatalog w skip search catalogType c now)
           = js_slice (allItems st) skip (min (skip + 500) (int (length (allItems st))))
    \<and> (0 \<le> skip \<longrightarrow>
          returned (fetchCatalog w skip search catalogType c now)
            = take 500 (drop (nat skip) (allItems st)))
    \<and> (\<forall>i<length bs.
          int (b_len (bs ! i)) < skip + 500 \<and> b_len (bs ! i) < 20 * 500
          \<and> b_len (bs ! i) + length (concat (map yield (drop i bs))) = length (allItems st)
          \<and> b_pages (bs ! i) = pagesToLoad (b_len (bs ! i) div 500 + 1)
          \<and> b_pages (bs ! i) \<noteq> []
          \<and> hd (b_pages (bs ! i)) = b_len (bs ! i) div 500 + 1)
    \<and> (\<forall>i<length bs. b_items (bs ! i) = Some [] \<longrightarrow> Suc i = length bs)
    \<and> (bs = [] \<or> (\<exists>xs. b_items (last bs) = Some xs \<and> xs \<noteq> []) \<longrightarrow>
          \<not> (int (length (allItems st)) < skip + 500 \<and> length (allItems st) < 20 * 500))
    \<and> allItems st = cached @ concat (map yield bs)
    \<and> (bs = [] \<longleftrightarrow> \<not> (int (length cached) < skip + 500 \<and> length cached < 20 * 500))
    \<and> (\<forall>i<length bs.
          b_len (bs ! i) = length (cached @ concat (map yield (take i bs)))
          \<and> b_items (bs ! i) = fetch_batch w i (b_pages (bs ! i))
          \<and> b_items (bs ! i) =
              (if \<not> w_launch w i then None
               else (case promise_all (map (\<lambda>pageNum. fetchPage (w_page w i pageNum)) (b_pages (bs ! i))) of
                       Inl e \<Rightarrow> None
                     | Inr ps \<Rightarrow> Some (concat ps)))
          \<and> (Suc i = length bs \<longleftrightarrow>
               yield (bs ! i) = []
               \<or> \<not> (int (b_len (bs ! i) + length (yield (bs ! i))) < skip + 500
                      \<and> b_len (bs ! i) + length (yield (bs ! i)) < 20 * 500)))"
proof -
  let ?key = "globalCacheKey search catalogType"
  let ?st0 = "\<lparr>allItems = cached, catalogCache = snd (cache_get c ?key now), batches = []\<rparr>"
  have st: "st = fetchCatalog_loop w skip ?key 0 ?st0"
    by (simp add: st_def cached_def fetchCatalog_final)
  have bs: "bs = batches st"
    by (simp add: bs_def st_def)
  from loop_trace [of w skip ?key 0 ?st0] st bs
  have all: "allItems st = cached @ concat (map yield bs)"
    and each: "\<And>i. i < length bs \<Longrightarrow>
          b_len (bs ! i) = length cached + length (concat (map yield (take i bs)))
          \<and> more_needed skip (cached @ concat (map yield (take i bs)))
          \<and> b_pages (bs ! i) = pagesToLoad (b_len (bs ! i) div ITEMS_PER_PAGE + 1)
          \<and> b_items (bs ! i) = fetch_batch w i (b_pages (bs ! i))"
    and inner: "\<And>i. Suc i < length bs \<Longrightarrow> \<exists>xs. b_items (bs ! i) = Some xs \<and> xs \<noteq> []"
    and exit: "bs = [] \<or> (\<exists>xs. b_items (last bs) = Some xs \<and> xs \<noteq> []) \<Longrightarrow>
          \<not> more_needed skip (allItems st)"
    by auto
  have need: "more_needed skip xs \<longleftrightarrow> int (length xs) < skip + 500 \<and> length xs < 20 * 500" for xs
    by (simp add: more_needed_def ITEMS_PER_PAGE_def MAX_PAGES_def)
  have slice: "returned (fetchCatalog w skip search catalogType c now)
           = js_slice (allItems st) skip (min (skip + 500) (int (length (allItems st))))"
    using fetchCatalog_returned [of w skip search catalogType c now]
    by (simp add: st_def ITEMS_PER_PAGE_def)
  have window: "returned (fetchCatalog w skip search catalogType c now)
            = take 500 (drop (nat skip) (allItems st))" if "0 \<le> skip"
    using slice js_slice_window [OF that] by simp
  have batch: "int (b_len (bs ! i)) < skip + 500 \<and> b_len (bs ! i) < 20 * 500
          \<and> b_len (bs ! i) + length (concat (map yield (drop i bs))) = length (allItems st)
          \<and> b_pages (bs ! i) = pagesToLoad (b_len (bs ! i) div 500 + 1)
          \<and> b_pages (bs ! i) \<noteq> []
          \<and> hd (b_pages (bs ! i)) = b_len (bs ! i) div 500 + 1" if "i < length bs" for i
  proof -
    from each [OF that] have len: "b_len (bs ! i) = length (cached @ concat (map yield (take i bs)))"
      and needed: "more_needed skip (cached @ concat (map yield (take i bs)))"
      and pg: "b_pages (bs ! i) = pagesToLoad (b_len (bs ! i) div ITEMS_PER_PAGE + 1)"
      by simp_all
    from needed len have lt: "int (b_len (bs ! i)) < skip + 500" "b_len (bs ! i) < MAX_PAGES * ITEMS_PER_PAGE"
      by (simp_all add: more_needed_def ITEMS_PER_PAGE_def)
    have "concat (map yield bs) = concat (map yield (take i bs)) @ concat (map yield (drop i bs))"
      by (metis append_take_drop_id concat_append map_append)
    with all len have sum: "b_len (bs ! i) + length (concat (map yield (drop i bs))) = length (allItems st)"
      by simp
    from pagesToLoad_first [OF lt(2)] pg lt sum show ?thesis
      by (simp add: ITEMS_PER_PAGE_def MAX_PAGES_def)
  qed
  have zero: "Suc i = length bs" if "i < length bs" "b_items (bs ! i) = Some []" for i
  proof (rule ccontr)
    assume "Suc i \<noteq> length bs"
    with that(1) have "Suc i < length bs" by simp
    from inner [OF this] that(2) show False by simp
  qed
  have stop: "\<not> (int (length (allItems st)) < skip + 500 \<and> length (allItems st) < 20 * 500)"
    if "bs = [] \<or> (\<exists>xs. b_items (last bs) = Some xs \<and> xs \<noteq> [])"
    using exit [OF that] by (simp add: need)
  have none: "bs = [] \<longleftrightarrow> \<not> (int (length cached) < skip + 500 \<and> length cached < 20 * 500)"
  proof
    assume "bs = []"
    with exit all show "\<not> (int (length cached) < skip + 500 \<and> length cached < 20 * 500)"
      by (simp add: need)
  next
    assume reached: "\<not> (int (length cached) < skip + 500 \<and> length cached < 20 * 500)"
    show "bs = []"
    proof (rule ccontr)
      assume "bs \<noteq> []"
      then have "0 < length bs" by simp
      from each [OF this] reached show False
        by (simp add: need)
    qed
  qed
  have pass: "b_len (bs ! i) = length (cached @ concat (map yield (take i bs)))
          \<and> b_items (bs ! i) = fetch_batch w i (b_pages (bs ! i))
          \<and> b_items (bs ! i) =
              (if \<not> w_launch w i then None
               else (case promise_all (map (\<lambda>pageNum. fetchPage (w_page w i pageNum)) (b_pages (bs ! i))) of
                       Inl e \<Rightarrow> None
                     | Inr ps \<Rightarrow> Some (concat ps)))
          \<and> (Suc i = length bs \<longleftrightarrow>
               yield (bs ! i) = []
               \<or> \<not> (int (b_len (bs ! i) + length (yield (bs ! i))) < skip + 500
                      \<and> b_len (bs ! i) + length (yield (bs ! i)) < 20 * 500))" if i: "i < length bs" for i
  proof -
    from each [OF i] have len: "b_len (bs ! i) = length (cached @ concat (map yield (take i bs)))"
      and fetched: "b_items (bs ! i) = fetch_batch w i (b_pages (bs ! i))"
      by simp_all
    from fetched have spelled: "b_items (bs ! i) =
              (if \<not> w_launch w i then None
               else (case promise_all (map (\<lambda>pageNum. fetchPage (w_page w i pageNum)) (b_pages (bs ! i))) of
                       Inl e \<Rightarrow> None
                     | Inr ps \<Rightarrow> Some (concat ps)))"
      by (simp only: fetch_batch_def)
    from i have after: "cached @ concat (map yield (take (Suc i) bs))
        = (cached @ concat (map yield (take i bs))) @ yield (bs ! i)"
      by (simp add: take_Suc_conv_app_nth)
    with len have after_len: "length (cached @ concat (map yield (take (Suc i) bs)))
        = b_len (bs ! i) + length (yield (bs ! i))"
      by simp
    have last: "Suc i = length bs \<longleftrightarrow>
               yield (bs ! i) = []
               \<or> \<not> (int (b_len (bs ! i) + length (yield (bs ! i))) < skip + 500
                      \<and> b_len (bs ! i) + length (yield (bs ! i)) < 20 * 500)"
    proof
      assume lastpass: "Suc i = length bs"
      show "yield (bs ! i) = []
               \<or> \<not> (int (b_len (bs ! i) + length (yield (bs ! i))) < skip + 500
                      \<and> b_len (bs ! i) + length (yield (bs ! i)) < 20 * 500)"
      proof (cases "yield (bs ! i) = []")
        case True
        then show ?thesis by simp
      next
        case False
        from lastpass have ne: "bs \<noteq> []"
          by auto
        from lastpass have "length bs - 1 = i"
          by simp
        with last_conv_nth [OF ne] have l: "last bs = bs ! i"
          by simp
        from False l have "\<exists>xs. b_items (last bs) = Some xs \<and> xs \<noteq> []"
          by (simp add: yield_def split: option.splits)
        then have "\<not> more_needed skip (allItems st)"
          by (intro exit) simp
        moreover from lastpass have "take (Suc i) bs = bs"
          by simp
        ultimately have "\<not> more_needed skip (cached @ concat (map yield (take (Suc i) bs)))"
          using all by simp
        then show ?thesis
          unfolding need after_len by simp
      qed
    next
      assume stopped: "yield (bs ! i) = []
               \<or> \<not> (int (b_len (bs ! i) + length (yield (bs ! i))) < skip + 500
                      \<and> b_len (bs ! i) + length (yield (bs ! i)) < 20 * 500)"
      show "Suc i = length bs"
      proof (rule ccontr)
        assume "Suc i \<noteq> length bs"
        with i have more: "Suc i < length bs" by simp
        from inner [OF more] have "yield (bs ! i) \<noteq> []"
          by (auto simp: yield_def)
        moreover from each [OF more] have "more_needed skip (cached @ concat (map yield (take (Suc i) bs)))"
          by simp
        then have "int (b_len (bs ! i) + length (yield (bs ! i))) < skip + 500
                      \<and> b_len (bs ! i) + length (yield (bs ! i)) < 20 * 500"
          unfolding need after_len by simp
        ultimately show False
          using stopped by simp
      qed
    qed
    from len fetched spelled last show ?thesis
      by blast
  qed
  from slice window batch zero stop all none pass show ?thesis
    by blast
qed


lemma loop_cache:
  "(allItems (fetchCatalog_loop w skip key k st) = allItems st
      \<and> catalogCache (fetchCatalog_loop w skip key k st) = catalogCache st)
   \<or> map_option cvalue (data (catalogCache (fetchCatalog_loop w skip key k st)) key)
        = Some (allItems (fetchCatalog_loop w skip key k st))"
proof (induction w skip key k st rule: fetchCatalog_loop.induct)
  case (1 w skip key k st)
  let ?n = "length (allItems st)"
  let ?pages = "pagesToLoad (?n div ITEMS_PER_PAGE + 1)"
  let ?b = "\<lambda>r. \<lparr>b_len = ?n, b_pages = ?pages, b_items = r\<rparr>"
  show ?case
  proof (cases "more_needed skip (allItems st)")
    case False
    then have "fetchCatalog_loop w skip key k st = st"
      unfolding more_needed_def by (subst fetchCatalog_loop.simps) (rule if_not_P)
    then show ?thesis by simp
  next
    case True
    then have ne: "?pages \<noteq> []"
      using pagesToLoad_first [of ?n] by (simp add: more_needed_def)
    consider (fail) "\<not> w_launch w k \<or> (\<exists>e. promise_all (map (\<lambda>p. fetchPage (w_page w k p)) ?pages) = Inl e)"
      | (empty) ps where "w_launch w k" "promise_all (map (\<lambda>p. fetchPage (w_page w k p)) ?pages) = Inr ps" "concat ps = []"
      | (more) ps where "w_launch w k" "promise_all (map (\<lambda>p. fetchPage (w_page w k p)) ?pages) = Inr ps" "concat ps \<noteq> []"
      by (cases "promise_all (map (\<lambda>p. fetchPage (w_page w k p)) ?pages)") auto
    then show ?thesis
    proof cases
      case fail
      with True ne have "fetchCatalog_loop w skip key k st = st\<lparr>batches := batches st @ [?b None]\<rparr>"
        by (subst fetchCatalog_loop.simps) (auto simp: more_needed_def Let_def)
      then show ?thesis by simp
    next
      case empty
      with True ne have "fetchCatalog_loop w skip key k st = st\<lparr>batches := batches st @ [?b (Some [])]\<rparr>"
        by (subst fetchCatalog_loop.simps) (simp add: more_needed_def Let_def del: concat_eq_Nil_conv)
      then show ?thesis by simp
    next
      case more
      let ?st' = "\<lparr>allItems = allItems st @ concat ps,
                  catalogCache = cache_set (catalogCache st) key (allItems st @ concat ps) None (w_now w k),
                  batches = batches st @ [?b (Some (concat ps))]\<rparr>"
      from True ne more have eq: "fetchCatalog_loop w skip key k st = fetchCatalog_loop w skip key (Suc k) ?st'"
        by (subst fetchCatalog_loop.simps) (simp add: more_needed_def Let_def del: concat_eq_Nil_conv)
      from True ne more have "(allItems (fetchCatalog_loop w skip key (Suc k) ?st') = allItems ?st'
            \<and> catalogCache (fetchCatalog_loop w skip key (Suc k) ?st') = catalogCache ?st')
          \<or> map_option cvalue (data (catalogCache (fetchCatalog_loop w skip key (Suc k) ?st')) key)
              = Some (allItems (fetchCatalog_loop w skip key (Suc k) ?st'))"
        by (intro "1.IH" [of "?n div ITEMS_PER_PAGE + 1" ?pages ps]) (simp_all add: more_needed_def del: concat_eq_Nil_conv)
      then have "map_option cvalue (data (catalogCache (fetchCatalog_loop w skip key (Suc k) ?st')) key)
              = Some (allItems (fetchCatalog_loop w skip key (Suc k) ?st'))"
        by (auto simp: cache_set_def)
      with eq show ?thesis by simp
    qed
  qed
qed

lemma promise_all_Inr: "promise_all rs = Inr xs \<Longrightarrow> rs = map Inr xs"
proof (induction rs arbitrary: xs)
  case Nil
  then show ?case by simp
next
  case (Cons r rs)
  then show ?case
    by (cases r) (auto split: sum.splits)
qed

lemma count_list_concat: "count_list (concat ps) x = (\<Sum>p\<leftarrow>ps. count_list p x)"
  by (induction ps) simp_all

text \<open>
  Claim C1, as amended. \<^verbatim>\<open>fetchCatalog\<close> suppresses nothing. Let \<open>cached\<close> be the sequence
  read from the cache under the key of the query (empty on a miss). The accumulated
  sequence is \<open>cached\<close> followed by the records of every pass, in order; pass \<open>i\<close> asks
  session \<open>i\<close> of the site for the pages of \<^verbatim>\<open>pagesToLoad\<close> from the page after the records
  accumulated so far, each through \<^verbatim>\<open>fetchPage\<close>, and when the session opens and every page
  is read it yields the records of those pages, all of them, in the order of the pages;
  otherwise it yields nothing. So each record occurs as often as it was cached and
  fetched; and once a pass has yielded records, the cache holds the accumulated sequence
  under the key of the query.
\<close>

theorem fetchCatalog_appends_every_record:
  fixes w skip search catalogType c now
  defines "st \<equiv> final (fetchCatalog w skip search catalogType c now)"
  defines "bs \<equiv> batches (final (fetchCatalog w skip search catalogType c now))"
  defines "cached \<equiv> (case fst (cache_get c (globalCacheKey search catalogType) now) of
                        None \<Rightarrow> [] | Some xs \<Rightarrow> xs)"
  shows "allItems st = cached @ concat (map yield bs)
    \<and> (\<forall>x. count_list (allItems st) x
             = count_list cached x + count_list (concat (map yield bs)) x)
    \<and> ((\<exists>b\<in>set bs. yield b \<noteq> []) \<longrightarrow>
          map_option cvalue (data (catalogCache st) (globalCacheKey search catalogType))
            = Some (allItems st))
    \<and> (\<forall>i<length bs.
          b_pages (bs ! i)
            = pagesToLoad (length (cached @ concat (map yield (take i bs))) div 500 + 1)
          \<and> yield (bs ! i) =
              (if \<not> w_launch w i then []
               else (case promise_all (map (\<lambda>pageNum. fetchPage (w_page w i pageNum)) (b_pages (bs ! i))) of
                       Inl e \<Rightarrow> []
                     | Inr ps \<Rightarrow> concat ps))
          \<and> (\<forall>ps. w_launch w i
                \<and> promise_all (map (\<lambda>pageNum. fetchPage (w_page w i pageNum)) (b_pages (bs ! i))) = Inr ps
               \<longrightarrow> length ps = length (b_pages (bs ! i))
                 \<and> (\<forall>j<length ps. fetchPage (w_page w i (b_pages (bs ! i) ! j)) = Inr (ps ! j))
                 \<and> (\<forall>x. count_list (yield (bs ! i)) x = (\<Sum>p\<leftarrow>ps. count_list p x))))"
proof -
  let ?key = "globalCacheKey search catalogType"
  let ?st0 = "\<lparr>allItems = cached, catalogCache = snd (cache_get c ?key now), batches = []\<rparr>"
  have st: "st = fetchCatalog_loop w skip ?key 0 ?st0"
    by (simp add: st_def cached_def fetchCatalog_final)
  have bs: "bs = batches st"
    by (simp add: bs_def st_def)
  from loop_trace [of w skip ?key 0 ?st0] st bs
  have all: "allItems st = cached @ concat (map yield bs)"
    and each: "\<And>i. i < length bs \<Longrightarrow>
          b_len (bs ! i) = length cached + length (concat (map yield (take i bs)))
          \<and> b_pages (bs ! i) = pagesToLoad (b_len (bs ! i) div ITEMS_PER_PAGE + 1)
          \<and> b_items (bs ! i) = fetch_batch w i (b_pages (bs ! i))"
    by auto
  from all have counts: "count_list (allItems st) x
      = count_list cached x + count_list (concat (map yield bs)) x" for x
    by simp
  have stored: "map_option cvalue (data (catalogCache st) ?key) = Some (allItems st)"
    if "\<exists>b\<in>set bs. yield b \<noteq> []"
  proof -
    from that have "concat (map yield bs) \<noteq> []"
      by auto
    with all have "allItems st \<noteq> allItems ?st0"
      by simp
    with loop_cache [of w skip ?key 0 ?st0] st show ?thesis
      by auto
  qed
  have pass: "b_pages (bs ! i)
            = pagesToLoad (length (cached @ concat (map yield (take i bs))) div 500 + 1)
          \<and> yield (bs ! i) =
              (if \<not> w_launch w i then []
               else (case promise_all (map (\<lambda>pageNum. fetchPage (w_page w i pageNum)) (b_pages (bs ! i))) of
                       Inl e \<Rightarrow> []
                     | Inr ps \<Rightarrow> concat ps))
          \<and> (\<forall>ps. w_launch w i
                \<and> promise_all (map (\<lambda>pageNum. fetchPage (w_page w i pageNum)) (b_pages (bs ! i))) = Inr ps
               \<longrightarrow> length ps = length (b_pages (bs ! i))
                 \<and> (\<forall>j<length ps. fetchPage (w_page w i (b_pages (bs ! i) ! j)) = Inr (ps ! j))
                 \<and> (\<forall>x. count_list (yield (bs ! i)) x = (\<Sum>p\<leftarrow>ps. count_list p x)))"
    if i: "i < length bs" for i
  proof -
    from each [OF i] have pages: "b_pages (bs ! i)
            = pagesToLoad (length (cached @ concat (map yield (take i bs))) div 500 + 1)"
      and fetched: "b_items (bs ! i) = fetch_batch w i (b_pages (bs ! i))"
      by (simp_all add: ITEMS_PER_PAGE_def)
    from fetched have y: "yield (bs ! i) =
              (if \<not> w_launch w i then []
               else (case promise_all (map (\<lambda>pageNum. fetchPage (w_page w i pageNum)) (b_pages (bs ! i))) of
                       Inl e \<Rightarrow> []
                     | Inr ps \<Rightarrow> concat ps))"
      by (simp add: yield_def fetch_batch_def split: sum.splits)
    have read: "length ps = length (b_pages (bs ! i))
                 \<and> (\<forall>j<length ps. fetchPage (w_page w i (b_pages (bs ! i) ! j)) = Inr (ps ! j))
                 \<and> (\<forall>x. count_list (yield (bs ! i)) x = (\<Sum>p\<leftarrow>ps. count_list p x))"
      if ok: "w_launch w i"
        "promise_all (map (\<lambda>pageNum. fetchPage (w_page w i pageNum)) (b_pages (bs ! i))) = Inr ps" for ps
    proof -
      from ok(2) have m: "map (\<lambda>pageNum. fetchPage (w_page w i pageNum)) (b_pages (bs ! i)) = map Inr ps"
        by (rule promise_all_Inr)
      then have l: "length ps = length (b_pages (bs ! i))"
        by (metis length_map)
      have "fetchPage (w_page w i (b_pages (bs ! i) ! j)) = Inr (ps ! j)" if "j < length ps" for j
      proof -
        from that l have "fetchPage (w_page w i (b_pages (bs ! i) ! j))
            = map (\<lambda>pageNum. fetchPage (w_page w i pageNum)) (b_pages (bs ! i)) ! j"
          by simp
        also have "\<dots> = map Inr ps ! j"
          by (simp only: m)
        also from that have "\<dots> = Inr (ps ! j)"
          by simp
        finally show ?thesis .
      qed
      moreover from y ok have "yield (bs ! i) = concat ps"
        by simp
      then have "count_list (yield (bs ! i)) x = (\<Sum>p\<leftarrow>ps. count_list p x)" for x
        by (simp add: count_list_concat)
      ultimately show ?thesis
        using l by blast
    qed
    from pages y read show ?thesis
      by blast
  qed
  from all counts stored pass show ?thesis
    by blast
qed

lemma cache_get_new: "cache_get (new_cache t) key now = (None, new_cache t)"
  by (simp add: cache_get_def new_cache_def)

text \<open>The theorem at \<open>site_twice\<close> with an empty cache.\<close>

theorem fetchCatalog_appends_every_record_witness:
  "allItems (final (fetchCatalog site_twice 0 [] ''popular'' (new_cache catalog_ttl) 0))
     = [item_a, item_a]
   \<and> count_list (allItems (final (fetchCatalog site_twice 0 [] ''popular'' (new_cache catalog_ttl) 0)))
       item_a = 2
   \<and> map_option cvalue
       (data (catalogCache (final (fetchCatalog site_twice 0 [] ''popular'' (new_cache catalog_ttl) 0)))
          ''catalog-popular-all'') = Some [item_a, item_a]"
  using fetchCatalog_appends_every_record
    [where w = site_twice and skip = 0 and search = "[]" and catalogType = "''popular''"
       and c = "new_cache catalog_ttl" and now = 0]
  by (simp add: site_twice_run yield_def cache_get_new globalCacheKey_def)

text \<open>Claim C1 as stated fails: when pages 1 and 2 of one batch carry the same record,
  the accumulated sequence holds two records of that identity.\<close>

theorem fetchCatalog_duplicate_counterexample:
  "\<not> distinct (map item_id
        (allItems (final (fetchCatalog site_twice 0 [] ''popular'' (new_cache catalog_ttl) 0))))
   \<and> map item_id
        (allItems (final (fetchCatalog site_twice 0 [] ''popular'' (new_cache catalog_ttl) 0)))
      = [''hstream:popular:alpha-1'', ''hstream:popular:alpha-1'']"
  by (simp add: site_twice_run item_a_def)

text \<open>Claim C5 at \<open>site_twice\<close>, \<open>skip = 0\<close> and an empty cache: two passes, both from page
  1, the second one empty.\<close>

theorem fetchCatalog_window_witness:
  "returned (fetchCatalog site_twice 0 [] ''popular'' (new_cache catalog_ttl) 0) = [item_a, item_a]
   \<and> map b_len (batches (final (fetchCatalog site_twice 0 [] ''popular'' (new_cache catalog_ttl) 0)))
       = [0, 2]
   \<and> map b_pages (batches (final (fetchCatalog site_twice 0 [] ''popular'' (new_cache catalog_ttl) 0)))
       = [[1, 2, 3, 4, 5], [1, 2, 3, 4, 5]]"
proof -
  have "returned (fetchCatalog site_twice 0 [] ''popular'' (new_cache catalog_ttl) 0)
      = take 500 (drop (nat 0)
          (allItems (final (fetchCatalog site_twice 0 [] ''popular'' (new_cache catalog_ttl) 0))))"
    by (rule fetchCatalog_window [THEN conjunct2, THEN conjunct1, THEN mp]) simp
  then show ?thesis
    by (simp add: site_twice_run)
qed

subsection \<open>The page search of the handlers\<close>

lemma find_replicate: "find P (replicate n x) = (if n = 0 \<or> \<not> P x then None else Some x)"
  by (induction n) auto

lemma site_lookup_fields:
  "l_launch site_lookup pageNum" "l_newPage site_lookup pageNum"
  "l_goto site_lookup pageNum = Status 200" "l_grid site_lookup pageNum"
  "l_page site_lookup pageNum =
     (if pageNum = 1 then page_of goto_ok [item_a] else page_of goto_ok [item_b])"
  "l_now site_lookup pageNum = 2000 + int pageNum"
  by (simp_all add: site_lookup_def goto_ok_def)

lemma catalogType_popular: "catalogType_of ''hstream:popular:beta-1'' = ''popular''"
  by (simp add: catalogType_of_def)

lemma cache_500_get:
  "cache_get cache_500 ''catalog-popular-all'' 1000 = (Some (replicate 500 item_a), cache_500)"
  by (simp add: cache_500_def cache_get_def cache_set_def new_cache_def ttl_or_def catalog_ttl_def)

lemma item_ids:
  "item_id item_a = ''hstream:popular:alpha-1''" "item_id item_b = ''hstream:popular:beta-1''"
  by (simp_all add: item_a_def item_b_def)

text \<open>
  Claim C3 at a cache of 500 records, none of them the one requested. The claim has the
  search resume at page \<open>500 div 500 + 1 = 2\<close>; the handler starts at page 1, appends the
  records of page 1 to the 500 cached ones, and finds the record on page 2.
\<close>

theorem find_item_restarts_at_page_1:
  "crawled (find_item site_lookup ''hstream:popular:beta-1'' cache_500 1000) = [1, 2]
   \<and> cachedItems (find_item site_lookup ''hstream:popular:beta-1'' cache_500 1000)
       = replicate 500 item_a @ [item_a, item_b]
   \<and> found_item (find_item site_lookup ''hstream:popular:beta-1'' cache_500 1000) = Some item_b
   \<and> length (replicate 500 item_a) div ITEMS_PER_PAGE + 1 = 2"
  by (simp add: find_item_def Let_def catalogType_popular cache_500_get find_replicate item_ids
      find_loop.simps [of site_lookup _ _ "Suc 0"] find_loop.simps [of site_lookup _ _ "Suc (Suc 0)"]
      site_lookup_fields fetchPage_page_of MAX_PAGES_def ITEMS_PER_PAGE_def)

subsection \<open>fetchVideoDetails: the stream map and the ranked list\<close>

lemma on_requests_snoc:
  "on_requests m (reqs @ [u]) = fst (on_request (on_requests m reqs) u)"
  by (simp add: on_requests_def)

lemma classify_cases:
  "classify u \<in> {''2160p'', ''1080p'', ''720p'', ''480p'', ''360p'', ''Unknown''}"
  by (simp add: classify_def)

lemma rank_of_classify:
  "classify u \<noteq> ''Unknown'' \<Longrightarrow> parseInt_or_0 (classify u) = rank_of (classify u)"
  using classify_cases [of u]
  by (auto simp: parseInt_or_0_def rank_of_def is_digit_def)





lemma keyed_update:
  assumes "keyed m" "quality x = k" "qualityNum x = rank_of k"
  shows "keyed (AList.update k x m)"
  using assms
proof (induction m)
  case Nil
  then show ?case by (simp add: keyed_def)
next
  case (Cons p m)
  then show ?case
    by (cases p) (auto simp: keyed_def distinct_update update_keys image_iff)
qed


lemma keyed_on_request: "keyed m \<Longrightarrow> keyed (fst (on_request m u))"
  by (simp add: on_request_def Let_def map_set_def keyed_update rank_of_classify)

lemma keyed_on_requests: "keyed m \<Longrightarrow> keyed (on_requests m reqs)"
  by (induction reqs rule: rev_induct) (simp_all add: on_requests_snoc keyed_on_request on_requests_def)

lemma keyed_merge_source: "keyed m \<Longrightarrow> keyed (merge_source m s)"
  by (simp add: merge_source_def map_set_def keyed_update)

lemma keyed_merge_sources: "keyed m \<Longrightarrow> keyed (foldl merge_source m ss)"
  by (induction ss arbitrary: m) (simp_all add: keyed_merge_source)

lemma keyed_streams_map: "keyed (streams_map env d)"
proof -
  have "keyed []"
    by (simp add: keyed_def)
  then show ?thesis
    unfolding streams_map_def
    by (intro keyed_on_requests keyed_merge_sources)
qed






lemma rank_examples:
  "parseInt_or_0 ''720p'' = 720" "parseInt_or_0 ''360p'' = 360" "parseInt_or_0 ''1080p'' = 1080"
  "rank_of ''720p'' = 720" "rank_of ''720'' = 720"
  by (simp_all add: parseInt_or_0_def is_digit_def rank_of_def)

lemma media_examples:
  "is_media ''https://cdn.example/720/v.mp4'' \<and> classify ''https://cdn.example/720/v.mp4'' = ''720p''"
  "is_media ''http://cdn.example/720/v.mp4'' \<and> classify ''http://cdn.example/720/v.mp4'' = ''720p''"
  "is_media ''https://cdn.example/360/v.mp4'' \<and> classify ''https://cdn.example/360/v.mp4'' = ''360p''"
  "is_media ''https://cdn.example/1080/v.mp4'' \<and> classify ''https://cdn.example/1080/v.mp4'' = ''1080p''"
  by (simp_all add: classify_def ext_here_def media_exts_def toLowerCase_def to_lower_def)

lemma on_request_media:
  "is_media u \<and> classify u = q \<Longrightarrow> q \<noteq> ''Unknown'' \<Longrightarrow>
   fst (on_request m u) = map_set m q \<lparr>url = u, quality = q, qualityNum = parseInt_or_0 q\<rparr>"
  by (simp add: on_request_def Let_def)

lemma on_request_examples:
  "fst (on_request m ''https://cdn.example/720/v.mp4'') = map_set m ''720p''
     \<lparr>url = ''https://cdn.example/720/v.mp4'', quality = ''720p'', qualityNum = 720\<rparr>"
  "fst (on_request m ''http://cdn.example/720/v.mp4'') = map_set m ''720p''
     \<lparr>url = ''http://cdn.example/720/v.mp4'', quality = ''720p'', qualityNum = 720\<rparr>"
  "fst (on_request m ''https://cdn.example/360/v.mp4'') = map_set m ''360p''
     \<lparr>url = ''https://cdn.example/360/v.mp4'', quality = ''360p'', qualityNum = 360\<rparr>"
  "fst (on_request m ''https://cdn.example/1080/v.mp4'') = map_set m ''1080p''
     \<lparr>url = ''https://cdn.example/1080/v.mp4'', quality = ''1080p'', qualityNum = 1080\<rparr>"
  using on_request_media [OF media_examples(1), of m] on_request_media [OF media_examples(2), of m]
    on_request_media [OF media_examples(3), of m] on_request_media [OF media_examples(4), of m]
  by (simp_all add: rank_examples)

lemma env_of_fields:
  "e_launch (env_of reqs d)" "e_newPage (env_of reqs d)" "e_intercept (env_of reqs d)"
  "e_goto (env_of reqs d)" "e_video (env_of reqs d)" "e_dom (env_of reqs d) = Some d"
  "e_meta (env_of reqs d) = Some meta_ex" "e_requests (env_of reqs d) = reqs"
  "e_late_requests (env_of reqs d) = []" "e_protocol (env_of reqs d) = protocol_simple"
  "e_now_get (env_of reqs d) = 10" "e_now_set (env_of reqs d) = 20"
  "e_proto_text (env_of reqs d) = proto_text_ex"
  by (simp_all add: env_of_def)

lemma videoData_dom_source:
  "videoData (dom_source l) =
     (if l = [] \<or> l = ''Unknown'' then \<lparr>vd_sources = [], vd_subtitles = []\<rparr>
      else \<lparr>vd_sources = [\<lparr>src_url = ''https://cdn.example/dom/v.mp4'', src_quality = l\<rparr>],
            vd_subtitles = []\<rparr>)"
  by (simp add: videoData_def dom_source_def doc_subtitles_def add_video_def add_source_def
      js_or_def map_set_def map_values_def Let_def)

lemma videoData_dom_empty: "videoData dom_empty = \<lparr>vd_sources = [], vd_subtitles = []\<rparr>"
  by (simp add: videoData_def dom_empty_def doc_subtitles_def map_values_def)



lemma streams_map_tie:
  "streams_map (env_of [''https://cdn.example/720/v.mp4''] (dom_source ''720'')) (dom_source ''720'')
     = [(''720p'', \<lparr>url = ''https://cdn.example/720/v.mp4'', quality = ''720p'', qualityNum = 720\<rparr>),
        (''720'', \<lparr>url = ''https://cdn.example/dom/v.mp4'', quality = ''720'', qualityNum = 720\<rparr>)]"
  by (simp add: streams_map_def env_of_fields on_requests_def on_request_examples
      rank_examples videoData_dom_source merge_source_def map_has_def map_set_def)

lemma streams_map_three:
  "streams_map (env_of [''https://cdn.example/360/v.mp4'', ''https://cdn.example/1080/v.mp4'',
        ''https://cdn.example/720/v.mp4''] dom_empty) dom_empty
     = [(''360p'', \<lparr>url = ''https://cdn.example/360/v.mp4'', quality = ''360p'', qualityNum = 360\<rparr>),
        (''1080p'', \<lparr>url = ''https://cdn.example/1080/v.mp4'', quality = ''1080p'', qualityNum = 1080\<rparr>),
        (''720p'', \<lparr>url = ''https://cdn.example/720/v.mp4'', quality = ''720p'', qualityNum = 720\<rparr>)]"
  by (simp add: streams_map_def env_of_fields on_requests_def on_request_examples
      rank_examples videoData_dom_empty map_set_def)

lemma protocol_examples:
  "protocol_simple ''http://cdn.example/720/v.mp4'' = Some ''http:''"
  "protocol_simple ''https://cdn.example/720/v.mp4'' = Some ''https:''"
  "protocol_simple ''https://cdn.example/360/v.mp4'' = Some ''https:''"
  "protocol_simple ''https://cdn.example/1080/v.mp4'' = Some ''https:''"
  "protocol_simple ''https://cdn.example/dom/v.mp4'' = Some ''https:''"
  by (simp_all add: protocol_simple_def)

lemma map_try_promise_all: "map_try f xs = promise_all (map f xs)"
  by (induction xs) (simp_all split: sum.splits)

lemma map_try_Inr: "(\<And>x. x \<in> set xs \<Longrightarrow> f x = Inr (g x)) \<Longrightarrow> map_try f xs = Inr (map g xs)"
  by (induction xs) simp_all

lemma map_try_Inl:
  "xs \<noteq> [] \<Longrightarrow> (\<And>x. x \<in> set xs \<Longrightarrow> f x = Inl e) \<Longrightarrow> map_try f xs = Inl e"
  by (cases xs) simp_all

lemma sub_outs_strings:
  "(\<And>sub. sub \<in> set subs \<Longrightarrow> \<exists>l. sub_lang sub = Str l) \<Longrightarrow> \<exists>outs. map_try sub_out_of subs = Inr outs"
proof (induction subs)
  case Nil
  show ?case by simp
next
  case (Cons sub subs)
  from Cons.prems [of sub] obtain l where "sub_lang sub = Str l"
    by auto
  then obtain out where "sub_out_of sub = Inr out"
    by (simp add: sub_out_of_def)
  moreover from Cons obtain outs where "map_try sub_out_of subs = Inr outs"
    by auto
  ultimately show ?case
    by simp
qed

lemma sub_outs_inherited:
  "sub \<in> set subs \<Longrightarrow> sub_lang sub = Inherited k \<Longrightarrow> map_try sub_out_of subs = Inl Type_error"
proof (induction subs)
  case Nil
  then show ?case by simp
next
  case (Cons a subs)
  show ?case
  proof (cases "sub_lang a")
    case (Inherited k')
    then have "sub_out_of a = Inl Type_error"
      by (simp add: sub_out_of_def)
    then show ?thesis
      by simp
  next
    case (Str l)
    then obtain out where "sub_out_of a = Inr out"
      by (simp add: sub_out_of_def)
    moreover from Str Cons.prems have "sub \<in> set subs"
      by auto
    with Cons have "map_try sub_out_of subs = Inl Type_error"
      by simp
    ultimately show ?thesis
      by simp
  qed
qed

lemma streamData_composed:
  "map_try sub_out_of subs = Inr outs \<Longrightarrow>
   streamData proto_text title subs s =
     Inr \<lparr>sd_title = quality_title (quality s), sd_url = url s,
          sd_name = title @ '' ('' @ template_text proto_text (quality_title (quality s)) @ '')'',
          sd_subtitles = (if subs = [] then None else Some outs)\<rparr>"
  by (simp add: streamData_def)

lemma streamData_no_subs:
  "streamData proto_text title [] s =
     Inr \<lparr>sd_title = quality_title (quality s), sd_url = url s,
          sd_name = title @ '' ('' @ template_text proto_text (quality_title (quality s)) @ '')'',
          sd_subtitles = None\<rparr>"
  by (simp add: streamData_def)

lemma streamData_thrown:
  "map_try sub_out_of subs = Inl e \<Longrightarrow> streamData proto_text title subs s = Inl e"
  by (cases subs) (simp_all add: streamData_def)

lemma quality_title_examples:
  "quality_title ''2160p'' = Str ''4K Ultra HD''" "quality_title ''1080p'' = Str ''Full HD''"
  "quality_title ''720p'' = Str ''HD''" "quality_title ''480p'' = Str ''SD''"
  "quality_title ''360p'' = Str ''Low Quality''" "quality_title ''720'' = Str ''720''"
  "quality_title ''constructor'' = Inherited ''constructor''"
  by (simp_all add: quality_title_def js_lookup_def qualityDesc_def object_prototype_keys_def)

lemma fetchVideoDetails_resolved:
  assumes "fst (cache_get c (detailsKey url0) (e_now_get env)) = None"
    and "e_launch env" "e_newPage env" "e_intercept env" "e_goto env" "e_video env"
    and "e_dom env = Some d" "e_meta env = Some meta"
    and "uniqueStreams (e_protocol env) (e_proto_text env) (m_title meta)
           (vd_subtitles (videoData d)) (streams_map env d) = Inr streams"
  shows "fetchVideoDetails env url0 c =
    \<lparr>vr_result = \<lparr>d_title = m_title meta, d_meta = Some meta, d_streams = streams\<rparr>,
     vr_cache = cache_set (snd (cache_get c (detailsKey url0) (e_now_get env))) (detailsKey url0)
         \<lparr>d_title = m_title meta, d_meta = Some meta, d_streams = streams\<rparr> None (e_now_set env),
     vr_session = [Launch, CloseBrowser]\<rparr>"
proof -
  from assms(1) obtain c1 where "cache_get c (detailsKey url0) (e_now_get env) = (None, c1)"
    by (cases "cache_get c (detailsKey url0) (e_now_get env)") simp
  with assms(2-) show ?thesis
    by (simp add: fetchVideoDetails_def fetchVideoDetails_try_def Let_def)
qed



lemma subtitles_dom_source: "vd_subtitles (videoData (dom_source l)) = []"
  by (simp add: videoData_dom_source)

lemma meta_ex_title: "m_title meta_ex = ''Alpha - 1''"
  by (simp add: meta_ex_def)




lemma rank_of_range: "rank_of q \<in> {2160, 1080, 720, 480, 360, 0}"
  by (simp add: rank_of_def)

lemma sort_desc_descending: "sorted_wrt (\<lambda>a b. qualityNum a \<ge> qualityNum b) (sort_desc xs)"
proof -
  have "sorted (map (\<lambda>s. - int (qualityNum s)) (sort_desc xs))"
    unfolding sort_desc_def by (rule sorted_sort_key)
  then show ?thesis
    by (simp add: sorted_map)
qed

lemma sort_desc_stable:
  "filter (\<lambda>s. qualityNum s = k) (sort_desc xs) = filter (\<lambda>s. qualityNum s = k) xs"
  using sort_key_stable [of "\<lambda>s. - int (qualityNum s)" "- int k" xs]
  by (simp add: sort_desc_def)

lemma surviving_subset: "set (surviving protocol m) \<subseteq> snd ` set m"
  by (auto simp: surviving_def sort_desc_def map_values_def)

text \<open>
  Claim C7, as amended. With \<open>xs\<close> the streams that survive the HTTPS filter, sorted: the
  list returned is \<open>xs\<close> mapped by \<open>streamData\<close>, stream for stream and in this order, when
  there is no stream or the language of every subtitle is a string, and the mapping
  throws otherwise; the ranks along \<open>xs\<close> never increase; the rank of a stream is the one
  read off its label, one of 2160, 1080, 720, 480, 360, or 0 for a label with none of these
  numbers; after a stream of rank 0 come only streams of rank 0; streams of equal rank keep
  the order in which their labels entered the map; the title of a stream is the entry of
  \<^verbatim>\<open>qualityDesc\<close> for its label, or the label when the table has none and the label is not
  the name of a property inherited from \<^verbatim>\<open>Object.prototype\<close>; for such a name the title is
  the inherited value, which is not a string.
\<close>

theorem streams_ranked:
  fixes env d proto_text title subs
  defines "xs \<equiv> surviving (e_protocol env) (streams_map env d)"
  shows "uniqueStreams (e_protocol env) proto_text title subs (streams_map env d)
           = map_try (streamData proto_text title subs) xs
    \<and> (xs = [] \<or> (\<forall>sub\<in>set subs. \<exists>l. sub_lang sub = Str l) \<longrightarrow>
          (\<exists>ys. uniqueStreams (e_protocol env) proto_text title subs (streams_map env d) = Inr ys
             \<and> map sd_url ys = map url xs
             \<and> map sd_title ys = map (\<lambda>s. quality_title (quality s)) xs))
    \<and> (xs \<noteq> [] \<and> (\<exists>sub\<in>set subs. \<exists>k. sub_lang sub = Inherited k) \<longrightarrow>
          uniqueStreams (e_protocol env) proto_text title subs (streams_map env d) = Inl Type_error)
    \<and> sorted_wrt (\<lambda>a b. qualityNum a \<ge> qualityNum b) xs
    \<and> (\<forall>s\<in>set xs. qualityNum s = rank_of (quality s)
          \<and> qualityNum s \<in> {2160, 1080, 720, 480, 360, 0})
    \<and> (\<forall>i j. i < j \<and> j < length xs \<and> qualityNum (xs ! i) = 0 \<longrightarrow> qualityNum (xs ! j) = 0)
    \<and> (\<forall>k. filter (\<lambda>s. qualityNum s = k) xs
          = filter (\<lambda>s. qualityNum s = k)
              (filter (is_https (e_protocol env)) (map_values (streams_map env d))))
    \<and> (\<forall>q. q \<notin> set object_prototype_keys \<longrightarrow>
          quality_title q = Str (case map_of qualityDesc q of Some t \<Rightarrow> t | None \<Rightarrow> q))
    \<and> (\<forall>q. q \<in> set object_prototype_keys \<longrightarrow> quality_title q = Inherited q)
    \<and> map quality_title [''2160p'', ''1080p'', ''720p'', ''480p'', ''360p'']
          = map Str [''4K Ultra HD'', ''Full HD'', ''HD'', ''SD'', ''Low Quality'']"
proof -
  let ?out = "uniqueStreams (e_protocol env) proto_text title subs (streams_map env d)"
  have composed: "?out = map_try (streamData proto_text title subs) xs"
    by (simp add: uniqueStreams_def xs_def)
  have fine: "\<exists>ys. ?out = Inr ys \<and> map sd_url ys = map url xs
             \<and> map sd_title ys = map (\<lambda>s. quality_title (quality s)) xs"
    if "xs = [] \<or> (\<forall>sub\<in>set subs. \<exists>l. sub_lang sub = Str l)"
  proof (cases "xs = []")
    case True
    with composed show ?thesis by simp
  next
    case False
    with that have "\<And>sub. sub \<in> set subs \<Longrightarrow> \<exists>l. sub_lang sub = Str l"
      by blast
    then obtain outs where "map_try sub_out_of subs = Inr outs"
      using sub_outs_strings by blast
    then have "?out = Inr (map (\<lambda>s. \<lparr>sd_title = quality_title (quality s), sd_url = url s,
          sd_name = title @ '' ('' @ template_text proto_text (quality_title (quality s)) @ '')'',
          sd_subtitles = (if subs = [] then None else Some outs)\<rparr>) xs)"
      unfolding composed by (intro map_try_Inr streamData_composed)
    then show ?thesis
      by (simp add: comp_def)
  qed
  have thrown: "?out = Inl Type_error"
    if "xs \<noteq> [] \<and> (\<exists>sub\<in>set subs. \<exists>k. sub_lang sub = Inherited k)"
  proof -
    from that obtain sub k where "sub \<in> set subs" "sub_lang sub = Inherited k"
      by blast
    then have "map_try sub_out_of subs = Inl Type_error"
      by (rule sub_outs_inherited)
    then have "streamData proto_text title subs s = Inl Type_error" for s
      by (rule streamData_thrown)
    with that show ?thesis
      unfolding composed by (intro map_try_Inl) simp_all
  qed
  have desc: "sorted_wrt (\<lambda>a b. qualityNum a \<ge> qualityNum b) xs"
    unfolding xs_def surviving_def by (rule sort_desc_descending)
  have ranks: "qualityNum s = rank_of (quality s) \<and> qualityNum s \<in> {2160, 1080, 720, 480, 360, 0}"
    if "s \<in> set xs" for s
  proof -
    from that surviving_subset obtain k where "(k, s) \<in> set (streams_map env d)"
      unfolding xs_def by fastforce
    with keyed_streams_map [of env d] have "qualityNum s = rank_of (quality s)"
      by (auto simp: keyed_def list_all_iff)
    with rank_of_range [of "quality s"] show ?thesis
      by simp
  qed
  have last0: "qualityNum (xs ! j) = 0" if "i < j \<and> j < length xs \<and> qualityNum (xs ! i) = 0" for i j
  proof -
    from desc have "\<forall>i j. i < j \<longrightarrow> j < length xs \<longrightarrow> qualityNum (xs ! j) \<le> qualityNum (xs ! i)"
      by (simp add: sorted_wrt_iff_nth_less)
    with that have "qualityNum (xs ! j) \<le> qualityNum (xs ! i)"
      by blast
    with that show ?thesis
      by simp
  qed
  have stable: "filter (\<lambda>s. qualityNum s = k) xs
          = filter (\<lambda>s. qualityNum s = k)
              (filter (is_https (e_protocol env)) (map_values (streams_map env d)))" for k
    unfolding xs_def surviving_def by (rule sort_desc_stable)
  have own: "quality_title q = Str (case map_of qualityDesc q of Some t \<Rightarrow> t | None \<Rightarrow> q)"
    if "q \<notin> set object_prototype_keys" for q
    using that by (simp add: quality_title_def js_lookup_def split: option.splits)
  have inherited: "quality_title q = Inherited q" if "q \<in> set object_prototype_keys" for q
  proof -
    from that have "map_of qualityDesc q = None"
      by (auto simp: qualityDesc_def object_prototype_keys_def)
    with that show ?thesis
      by (simp add: quality_title_def js_lookup_def)
  qed
  have table: "map quality_title [''2160p'', ''1080p'', ''720p'', ''480p'', ''360p'']
          = map Str [''4K Ultra HD'', ''Full HD'', ''HD'', ''SD'', ''Low Quality'']"
    by (simp add: quality_title_examples)
  from composed fine thrown desc ranks last0 stable own inherited table show ?thesis
    by blast
qed

lemma surviving_three:
  "surviving protocol_simple
     (streams_map (env_of [''https://cdn.example/360/v.mp4'', ''https://cdn.example/1080/v.mp4'',
        ''https://cdn.example/720/v.mp4''] dom_empty) dom_empty)
   = [\<lparr>url = ''https://cdn.example/1080/v.mp4'', quality = ''1080p'', qualityNum = 1080\<rparr>,
      \<lparr>url = ''https://cdn.example/720/v.mp4'', quality = ''720p'', qualityNum = 720\<rparr>,
      \<lparr>url = ''https://cdn.example/360/v.mp4'', quality = ''360p'', qualityNum = 360\<rparr>]"
  by (simp add: streams_map_three surviving_def map_values_def is_https_def protocol_examples
      sort_desc_def)

lemma surviving_tie:
  "surviving protocol_simple
     (streams_map (env_of [''https://cdn.example/720/v.mp4''] (dom_source ''720'')) (dom_source ''720''))
   = [\<lparr>url = ''https://cdn.example/720/v.mp4'', quality = ''720p'', qualityNum = 720\<rparr>,
      \<lparr>url = ''https://cdn.example/dom/v.mp4'', quality = ''720'', qualityNum = 720\<rparr>]"
  by (simp add: streams_map_tie surviving_def map_values_def is_https_def protocol_examples
      sort_desc_def)

lemma uniqueStreams_three:
  "uniqueStreams protocol_simple proto_text_ex ''Alpha - 1'' []
     (streams_map (env_of [''https://cdn.example/360/v.mp4'', ''https://cdn.example/1080/v.mp4'',
        ''https://cdn.example/720/v.mp4''] dom_empty) dom_empty)
   = Inr [\<lparr>sd_title = Str ''Full HD'', sd_url = ''https://cdn.example/1080/v.mp4'',
            sd_name = ''Alpha - 1 (Full HD)'', sd_subtitles = None\<rparr>,
          \<lparr>sd_title = Str ''HD'', sd_url = ''https://cdn.example/720/v.mp4'',
            sd_name = ''Alpha - 1 (HD)'', sd_subtitles = None\<rparr>,
          \<lparr>sd_title = Str ''Low Quality'', sd_url = ''https://cdn.example/360/v.mp4'',
            sd_name = ''Alpha - 1 (Low Quality)'', sd_subtitles = None\<rparr>]"
  by (simp add: uniqueStreams_def surviving_three streamData_no_subs quality_title_examples
      template_text_def)

lemma uniqueStreams_tie:
  "uniqueStreams protocol_simple proto_text_ex ''Alpha - 1'' []
     (streams_map (env_of [''https://cdn.example/720/v.mp4''] (dom_source ''720'')) (dom_source ''720''))
   = Inr [\<lparr>sd_title = Str ''HD'', sd_url = ''https://cdn.example/720/v.mp4'',
            sd_name = ''Alpha - 1 (HD)'', sd_subtitles = None\<rparr>,
          \<lparr>sd_title = Str ''720'', sd_url = ''https://cdn.example/dom/v.mp4'',
            sd_name = ''Alpha - 1 (720)'', sd_subtitles = None\<rparr>]"
  by (simp add: uniqueStreams_def surviving_tie streamData_no_subs quality_title_examples
      template_text_def)

text \<open>The theorem where requests for 360p, 1080p and 720p are intercepted in this order and
  the document has no subtitle.\<close>

theorem streams_ranked_witness:
  "map sd_title (d_streams (vr_result (fetchVideoDetails
       (env_of [''https://cdn.example/360/v.mp4'', ''https://cdn.example/1080/v.mp4'',
          ''https://cdn.example/720/v.mp4''] dom_empty)
       ''https://hstream.moe/hentai/alpha-1'' (new_cache stream_ttl))))
     = [Str ''Full HD'', Str ''HD'', Str ''Low Quality'']
   \<and> (\<exists>ys. uniqueStreams protocol_simple proto_text_ex ''Alpha - 1'' []
       (streams_map (env_of [''https://cdn.example/360/v.mp4'', ''https://cdn.example/1080/v.mp4'',
          ''https://cdn.example/720/v.mp4''] dom_empty) dom_empty) = Inr ys
      \<and> map sd_url ys
          = [''https://cdn.example/1080/v.mp4'', ''https://cdn.example/720/v.mp4'',
             ''https://cdn.example/360/v.mp4''])"
proof -
  let ?env = "env_of [''https://cdn.example/360/v.mp4'', ''https://cdn.example/1080/v.mp4'',
          ''https://cdn.example/720/v.mp4''] dom_empty"
  have "\<exists>ys. uniqueStreams (e_protocol ?env) proto_text_ex ''Alpha - 1'' [] (streams_map ?env dom_empty) = Inr ys
      \<and> map sd_url ys = map url (surviving (e_protocol ?env) (streams_map ?env dom_empty))
      \<and> map sd_title ys
          = map (\<lambda>s. quality_title (quality s)) (surviving (e_protocol ?env) (streams_map ?env dom_empty))"
    by (rule streams_ranked [THEN conjunct2, THEN conjunct1, THEN mp]) simp
  then have urls: "\<exists>ys. uniqueStreams protocol_simple proto_text_ex ''Alpha - 1'' []
       (streams_map ?env dom_empty) = Inr ys
      \<and> map sd_url ys
          = [''https://cdn.example/1080/v.mp4'', ''https://cdn.example/720/v.mp4'',
             ''https://cdn.example/360/v.mp4'']"
    by (auto simp: env_of_fields surviving_three)
  have "d_streams (vr_result (fetchVideoDetails ?env
       ''https://hstream.moe/hentai/alpha-1'' (new_cache stream_ttl)))
     = [\<lparr>sd_title = Str ''Full HD'', sd_url = ''https://cdn.example/1080/v.mp4'',
            sd_name = ''Alpha - 1 (Full HD)'', sd_subtitles = None\<rparr>,
        \<lparr>sd_title = Str ''HD'', sd_url = ''https://cdn.example/720/v.mp4'',
            sd_name = ''Alpha - 1 (HD)'', sd_subtitles = None\<rparr>,
        \<lparr>sd_title = Str ''Low Quality'', sd_url = ''https://cdn.example/360/v.mp4'',
            sd_name = ''Alpha - 1 (Low Quality)'', sd_subtitles = None\<rparr>]"
    by (subst fetchVideoDetails_resolved [where d = dom_empty and meta = meta_ex])
      (simp_all add: env_of_fields cache_get_new videoData_dom_empty meta_ex_title
        uniqueStreams_three)
  with urls show ?thesis
    by simp
qed

text \<open>Claim C7 as stated fails: an intercepted 720p request and a source of size 720 give
  two streams of rank 720, so the ranks are not strictly descending.\<close>

theorem streams_equal_rank_counterexample:
  "map qualityNum (surviving protocol_simple
     (streams_map (env_of [''https://cdn.example/720/v.mp4''] (dom_source ''720'')) (dom_source ''720'')))
     = [720, 720]
   \<and> \<not> sorted_wrt (\<lambda>a b. qualityNum a > qualityNum b) (surviving protocol_simple
     (streams_map (env_of [''https://cdn.example/720/v.mp4''] (dom_source ''720'')) (dom_source ''720'')))
   \<and> map sd_title (d_streams (vr_result (fetchVideoDetails
       (env_of [''https://cdn.example/720/v.mp4''] (dom_source ''720''))
       ''https://hstream.moe/hentai/alpha-1'' (new_cache stream_ttl))))
     = [Str ''HD'', Str ''720'']"
proof -
  let ?env = "env_of [''https://cdn.example/720/v.mp4''] (dom_source ''720'')"
  have "d_streams (vr_result (fetchVideoDetails ?env
       ''https://hstream.moe/hentai/alpha-1'' (new_cache stream_ttl)))
     = [\<lparr>sd_title = Str ''HD'', sd_url = ''https://cdn.example/720/v.mp4'',
            sd_name = ''Alpha - 1 (HD)'', sd_subtitles = None\<rparr>,
        \<lparr>sd_title = Str ''720'', sd_url = ''https://cdn.example/dom/v.mp4'',
            sd_name = ''Alpha - 1 (720)'', sd_subtitles = None\<rparr>]"
    by (subst fetchVideoDetails_resolved [where d = "dom_source ''720''" and meta = meta_ex])
      (simp_all add: env_of_fields cache_get_new subtitles_dom_source meta_ex_title
        uniqueStreams_tie)
  then show ?thesis
    by (simp add: surviving_tie)
qed

subsection \<open>fetchVideoDetails: subtitles, failures and the stream cache\<close>

lemma button_english:
  "button_sub \<lparr>bt_link = Some ''/subs/alpha-1.ass'', bt_text = ''English''\<rparr> =
     Some (''English'', \<lparr>sub_url = ''/subs/alpha-1.ass'', sub_lang = Str ''eng'', sub_id = Str ''eng'',
             sub_name = Some ''English'', sub_format = None\<rparr>)"
  by (simp add: button_sub_def trim_def is_space_def is_alpha_def langMap_def js_lookup_def
      toLowerCase_def to_lower_def Let_def)

lemma button_constructor:
  "button_sub \<lparr>bt_link = Some ''/subs/alpha-1.ass'', bt_text = ''constructor''\<rparr> =
     Some (''constructor'', \<lparr>sub_url = ''/subs/alpha-1.ass'', sub_lang = Inherited ''constructor'',
             sub_id = Inherited ''constructor'', sub_name = Some ''constructor'',
             sub_format = None\<rparr>)"
  by (simp add: button_sub_def trim_def is_space_def is_alpha_def langMap_def js_lookup_def
      object_prototype_keys_def toLowerCase_def to_lower_def Let_def)

lemma track_vtt:
  "srclang \<noteq> [] \<Longrightarrow>
   track_sub \<lparr>t_src = ''https://hstream.moe/subs/alpha-1.vtt'', t_kind = Some ''subtitles'',
              t_srclang = srclang, t_label = ''English''\<rparr> =
     Some (srclang, \<lparr>sub_url = ''https://hstream.moe/subs/alpha-1.vtt'', sub_lang = Str srclang,
             sub_id = Str ''English'', sub_name = None, sub_format = Some ''vtt''\<rparr>)"
  by (simp add: track_sub_def toLowerCase_def to_lower_def Let_def)

text \<open>
  Claim C4 at its own example and at a track whose \<^verbatim>\<open>srclang\<close> is the language name. The
  button is keyed by the word \<^verbatim>\<open>English\<close> of its text and the track by its \<^verbatim>\<open>srclang\<close>: with
  \<^verbatim>\<open>srclang = "eng"\<close> the two keys differ and both entries of the same language are
  returned; with \<^verbatim>\<open>srclang = "English"\<close> the keys agree and the entry of the track replaces
  the entry of the button.
\<close>

theorem subtitle_sources_not_merged:
  "vd_subtitles (videoData (dom_subs ''eng'')) =
     [\<lparr>sub_url = ''/subs/alpha-1.ass'', sub_lang = Str ''eng'', sub_id = Str ''eng'',
       sub_name = Some ''English'', sub_format = None\<rparr>,
      \<lparr>sub_url = ''https://hstream.moe/subs/alpha-1.vtt'', sub_lang = Str ''eng'',
       sub_id = Str ''English'', sub_name = None, sub_format = Some ''vtt''\<rparr>]
   \<and> vd_subtitles (videoData (dom_subs ''English'')) =
     [\<lparr>sub_url = ''https://hstream.moe/subs/alpha-1.vtt'', sub_lang = Str ''English'',
       sub_id = Str ''English'', sub_name = None, sub_format = Some ''vtt''\<rparr>]"
  by (simp add: videoData_def dom_subs_def doc_subtitles_def add_sub_def add_track_def
      kind_selected_def button_english track_vtt map_set_def map_values_def)


lemma try_step_fails:
  assumes "\<not> (e_launch env \<and> e_newPage env \<and> e_intercept env \<and> e_goto env \<and> e_video env
              \<and> e_dom env \<noteq> None \<and> e_meta env \<noteq> None)"
  shows "\<exists>err. fetchVideoDetails_try env = (Inl err, if e_launch env then [Launch] else [])"
  using assms by (auto simp: fetchVideoDetails_try_def split: option.splits)

lemma try_composes:
  assumes "e_launch env" "e_newPage env" "e_intercept env" "e_goto env" "e_video env"
    and "e_dom env = Some d" "e_meta env = Some meta"
  shows "fetchVideoDetails_try env =
    (case uniqueStreams (e_protocol env) (e_proto_text env) (m_title meta)
            (vd_subtitles (videoData d)) (streams_map env d) of
       Inl err \<Rightarrow> (Inl err, [Launch, CloseBrowser])
     | Inr streams \<Rightarrow>
         (Inr \<lparr>d_title = m_title meta, d_meta = Some meta, d_streams = streams\<rparr>,
          [Launch, CloseBrowser]))"
  using assms by (simp add: fetchVideoDetails_try_def)

text \<open>The body of the \<^verbatim>\<open>try\<close> throws exactly when an awaited call fails or, after all of
  them, the composition of the streams throws; and what has happened to the browser by
  then.\<close>

lemma try_fails_iff:
  "(\<exists>err. fst (fetchVideoDetails_try env) = Inl err) \<longleftrightarrow>
     \<not> (e_launch env \<and> e_newPage env \<and> e_intercept env \<and> e_goto env \<and> e_video env
          \<and> e_dom env \<noteq> None \<and> e_meta env \<noteq> None)
     \<or> (\<exists>d meta. e_dom env = Some d \<and> e_meta env = Some meta
           \<and> (\<exists>err. uniqueStreams (e_protocol env) (e_proto_text env) (m_title meta)
                       (vd_subtitles (videoData d)) (streams_map env d) = Inl err))"
proof (cases "e_launch env \<and> e_newPage env \<and> e_intercept env \<and> e_goto env \<and> e_video env
          \<and> e_dom env \<noteq> None \<and> e_meta env \<noteq> None")
  case False
  with try_step_fails [OF False] show ?thesis
    by auto
next
  case True
  then obtain d meta where dm: "e_dom env = Some d" "e_meta env = Some meta"
    by auto
  from True have steps: "e_launch env" "e_newPage env" "e_intercept env" "e_goto env" "e_video env"
    by blast+
  show ?thesis
    using True dm by (simp add: try_composes [OF steps dm] split: sum.splits)
qed

lemma try_events:
  assumes "fst (fetchVideoDetails_try env) = Inl err"
  shows "snd (fetchVideoDetails_try env) =
    (if \<not> e_launch env then []
     else if \<not> (e_newPage env \<and> e_intercept env \<and> e_goto env \<and> e_video env
                   \<and> e_dom env \<noteq> None \<and> e_meta env \<noteq> None) then [Launch]
     else [Launch, CloseBrowser])"
proof (cases "e_launch env \<and> e_newPage env \<and> e_intercept env \<and> e_goto env \<and> e_video env
          \<and> e_dom env \<noteq> None \<and> e_meta env \<noteq> None")
  case False
  with try_step_fails [OF False] show ?thesis
    by auto
next
  case True
  then obtain d meta where dm: "e_dom env = Some d" "e_meta env = Some meta"
    by auto
  from True have steps: "e_launch env" "e_newPage env" "e_intercept env" "e_goto env" "e_video env"
    by blast+
  show ?thesis
    using True dm by (simp add: try_composes [OF steps dm] split: sum.splits)
qed

lemma uniqueStreams_fails_iff:
  "(\<exists>err. uniqueStreams protocol proto_text title subs streams = Inl err) \<longleftrightarrow>
     surviving protocol streams \<noteq> [] \<and> (\<exists>sub\<in>set subs. \<exists>k. sub_lang sub = Inherited k)"
proof (cases "surviving protocol streams \<noteq> [] \<and> (\<exists>sub\<in>set subs. \<exists>k. sub_lang sub = Inherited k)")
  case True
  then obtain sub k where "sub \<in> set subs" "sub_lang sub = Inherited k"
    by blast
  then have "map_try sub_out_of subs = Inl Type_error"
    by (rule sub_outs_inherited)
  then have "streamData proto_text title subs s = Inl Type_error" for s
    by (rule streamData_thrown)
  with True have "uniqueStreams protocol proto_text title subs streams = Inl Type_error"
    unfolding uniqueStreams_def by (intro map_try_Inl) simp_all
  with True show ?thesis
    by simp
next
  case False
  have "\<exists>ys. uniqueStreams protocol proto_text title subs streams = Inr ys"
  proof (cases "surviving protocol streams = []")
    case True
    then show ?thesis
      by (simp add: uniqueStreams_def)
  next
    case ne: False
    have "\<exists>l. sub_lang sub = Str l" if "sub \<in> set subs" for sub
      using that False ne by (cases "sub_lang sub") auto
    then obtain outs where "map_try sub_out_of subs = Inr outs"
      using sub_outs_strings by blast
    then have "uniqueStreams protocol proto_text title subs streams
        = Inr (map (\<lambda>s. \<lparr>sd_title = quality_title (quality s), sd_url = url s,
          sd_name = title @ '' ('' @ template_text proto_text (quality_title (quality s)) @ '')'',
          sd_subtitles = (if subs = [] then None else Some outs)\<rparr>) (surviving protocol streams))"
      unfolding uniqueStreams_def by (intro map_try_Inr streamData_composed)
    then show ?thesis
      by simp
  qed
  with False show ?thesis
    by auto
qed

lemma fetchVideoDetails_thrown:
  assumes "fst (cache_get c (detailsKey url0) (e_now_get env)) = None"
    and "fst (fetchVideoDetails_try env) = Inl err"
  shows "fetchVideoDetails env url0 c =
    \<lparr>vr_result = degraded, vr_cache = snd (cache_get c (detailsKey url0) (e_now_get env)),
     vr_session =
       (if \<not> e_launch env then []
        else if \<not> (e_newPage env \<and> e_intercept env \<and> e_goto env \<and> e_video env
                      \<and> e_dom env \<noteq> None \<and> e_meta env \<noteq> None) then [Launch, CloseBrowser]
        else [Launch, CloseBrowser, CloseBrowser])\<rparr>"
proof -
  from assms(1) obtain c1 where "cache_get c (detailsKey url0) (e_now_get env) = (None, c1)"
    by (cases "cache_get c (detailsKey url0) (e_now_get env)") simp
  moreover from assms(2) try_events [OF assms(2)]
  have "fetchVideoDetails_try env = (Inl err,
     if \<not> e_launch env then []
     else if \<not> (e_newPage env \<and> e_intercept env \<and> e_goto env \<and> e_video env
                   \<and> e_dom env \<noteq> None \<and> e_meta env \<noteq> None) then [Launch]
     else [Launch, CloseBrowser])"
    by (cases "fetchVideoDetails_try env") simp
  ultimately show ?thesis
    by (simp add: fetchVideoDetails_def)
qed

text \<open>
  Claim C8. The body of the \<^verbatim>\<open>try\<close> of \<^verbatim>\<open>fetchVideoDetails\<close> throws exactly when one of the
  awaited calls of the resolution fails (the launch, the new page, the interception
  set-up, the navigation, the wait for the video element, or either evaluation) or, after
  all of them, the composition of the streams throws, which it does exactly when a stream
  survives and the language of some subtitle is not a string. When the cache has no live
  entry for the detail page and the body throws, whatever the exception,
  \<^verbatim>\<open>fetchVideoDetails\<close> returns \<^verbatim>\<open>{ title: 'Unknown', streams: [] }\<close>; no browser was launched
  when the launch failed, and otherwise the browser has been closed: once, in the
  \<^verbatim>\<open>catch\<close>, when an awaited call failed, and at line 678 and again in the \<^verbatim>\<open>catch\<close> when
  the composition threw.
\<close>

theorem fetchVideoDetails_degrades:
  assumes "fst (cache_get c (detailsKey url0) (e_now_get env)) = None"
  shows "((\<exists>err. fst (fetchVideoDetails_try env) = Inl err) \<longleftrightarrow>
            \<not> (e_launch env \<and> e_newPage env \<and> e_intercept env \<and> e_goto env \<and> e_video env
                 \<and> e_dom env \<noteq> None \<and> e_meta env \<noteq> None)
            \<or> (\<exists>d meta. e_dom env = Some d \<and> e_meta env = Some meta
                  \<and> (\<exists>err. uniqueStreams (e_protocol env) (e_proto_text env) (m_title meta)
                              (vd_subtitles (videoData d)) (streams_map env d) = Inl err)))
    \<and> (\<forall>d title.
          (\<exists>err. uniqueStreams (e_protocol env) (e_proto_text env) title
                    (vd_subtitles (videoData d)) (streams_map env d) = Inl err) \<longleftrightarrow>
          surviving (e_protocol env) (streams_map env d) \<noteq> []
          \<and> (\<exists>sub\<in>set (vd_subtitles (videoData d)). \<exists>k. sub_lang sub = Inherited k))
    \<and> ((\<exists>err. fst (fetchVideoDetails_try env) = Inl err) \<longrightarrow>
          vr_result (fetchVideoDetails env url0 c)
            = \<lparr>d_title = ''Unknown'', d_meta = None, d_streams = []\<rparr>
          \<and> vr_session (fetchVideoDetails env url0 c)
            = (if \<not> e_launch env then []
               else if \<not> (e_newPage env \<and> e_intercept env \<and> e_goto env \<and> e_video env
                             \<and> e_dom env \<noteq> None \<and> e_meta env \<noteq> None)
               then [Launch, CloseBrowser]
               else [Launch, CloseBrowser, CloseBrowser]))"
proof (intro conjI allI impI)
  show "(\<exists>err. fst (fetchVideoDetails_try env) = Inl err) \<longleftrightarrow>
            \<not> (e_launch env \<and> e_newPage env \<and> e_intercept env \<and> e_goto env \<and> e_video env
                 \<and> e_dom env \<noteq> None \<and> e_meta env \<noteq> None)
            \<or> (\<exists>d meta. e_dom env = Some d \<and> e_meta env = Some meta
                  \<and> (\<exists>err. uniqueStreams (e_protocol env) (e_proto_text env) (m_title meta)
                              (vd_subtitles (videoData d)) (streams_map env d) = Inl err))"
    by (rule try_fails_iff)
next
  fix d title
  show "(\<exists>err. uniqueStreams (e_protocol env) (e_proto_text env) title
                    (vd_subtitles (videoData d)) (streams_map env d) = Inl err) \<longleftrightarrow>
          surviving (e_protocol env) (streams_map env d) \<noteq> []
          \<and> (\<exists>sub\<in>set (vd_subtitles (videoData d)). \<exists>k. sub_lang sub = Inherited k)"
    by (rule uniqueStreams_fails_iff)
next
  assume "\<exists>err. fst (fetchVideoDetails_try env) = Inl err"
  then obtain err where thrown: "fst (fetchVideoDetails_try env) = Inl err"
    by blast
  note run = fetchVideoDetails_thrown [OF assms thrown]
  show "vr_result (fetchVideoDetails env url0 c)
      = \<lparr>d_title = ''Unknown'', d_meta = None, d_streams = []\<rparr>"
    by (subst run) (simp add: degraded_def)
  show "vr_session (fetchVideoDetails env url0 c)
            = (if \<not> e_launch env then []
               else if \<not> (e_newPage env \<and> e_intercept env \<and> e_goto env \<and> e_video env
                             \<and> e_dom env \<noteq> None \<and> e_meta env \<noteq> None)
               then [Launch, CloseBrowser]
               else [Launch, CloseBrowser, CloseBrowser])"
    by (subst run) simp
qed

lemma env_no_video_fields:
  "e_launch env_no_video" "\<not> e_video env_no_video" "e_now_get env_no_video = 10"
  by (simp_all add: env_no_video_def env_of_def)

lemma videoData_dom_constructor:
  "videoData dom_constructor =
     \<lparr>vd_sources = [],
      vd_subtitles = [\<lparr>sub_url = ''/subs/alpha-1.ass'', sub_lang = Inherited ''constructor'',
             sub_id = Inherited ''constructor'', sub_name = Some ''constructor'',
             sub_format = None\<rparr>]\<rparr>"
  by (simp add: videoData_def dom_constructor_def doc_subtitles_def add_sub_def button_constructor
      map_set_def map_values_def)

lemma surviving_constructor:
  "surviving protocol_simple
     (streams_map (env_of [''https://cdn.example/720/v.mp4''] dom_constructor) dom_constructor)
   = [\<lparr>url = ''https://cdn.example/720/v.mp4'', quality = ''720p'', qualityNum = 720\<rparr>]"
  by (simp add: streams_map_def env_of_fields on_requests_def on_request_examples
      videoData_dom_constructor map_set_def surviving_def map_values_def is_https_def
      protocol_examples sort_desc_def)

lemma try_constructor:
  "fst (fetchVideoDetails_try (env_of [''https://cdn.example/720/v.mp4''] dom_constructor))
     = Inl Type_error"
proof -
  let ?env = "env_of [''https://cdn.example/720/v.mp4''] dom_constructor"
  have "uniqueStreams (e_protocol ?env) (e_proto_text ?env) (m_title meta_ex)
          (vd_subtitles (videoData dom_constructor)) (streams_map ?env dom_constructor)
      = Inl Type_error"
    by (simp add: uniqueStreams_def env_of_fields surviving_constructor videoData_dom_constructor
        streamData_def sub_out_of_def)
  then show ?thesis
    by (subst try_composes [where d = dom_constructor and meta = meta_ex])
      (simp_all add: env_of_fields)
qed

text \<open>The theorem on an empty cache, where the video element never appears, and where a
  720p stream is intercepted and the text of the download button is the word
  \<^verbatim>\<open>constructor\<close>, so that the composition throws.\<close>

theorem fetchVideoDetails_degrades_witness:
  "vr_result (fetchVideoDetails env_no_video ''https://hstream.moe/hentai/alpha-1''
       (new_cache stream_ttl))
     = \<lparr>d_title = ''Unknown'', d_meta = None, d_streams = []\<rparr>
   \<and> vr_session (fetchVideoDetails env_no_video ''https://hstream.moe/hentai/alpha-1''
       (new_cache stream_ttl))
     = [Launch, CloseBrowser]
   \<and> fst (fetchVideoDetails_try (env_of [''https://cdn.example/720/v.mp4''] dom_constructor))
     = Inl Type_error
   \<and> vr_result (fetchVideoDetails (env_of [''https://cdn.example/720/v.mp4''] dom_constructor)
       ''https://hstream.moe/hentai/alpha-1'' (new_cache stream_ttl))
     = \<lparr>d_title = ''Unknown'', d_meta = None, d_streams = []\<rparr>
   \<and> vr_session (fetchVideoDetails (env_of [''https://cdn.example/720/v.mp4''] dom_constructor)
       ''https://hstream.moe/hentai/alpha-1'' (new_cache stream_ttl))
     = [Launch, CloseBrowser, CloseBrowser]"
proof -
  let ?url = "''https://hstream.moe/hentai/alpha-1''"
  let ?env = "env_of [''https://cdn.example/720/v.mp4''] dom_constructor"
  have miss: "fst (cache_get (new_cache stream_ttl) (detailsKey ?url) now) = None" for now
    by (simp add: cache_get_new)
  have "\<exists>err. fst (fetchVideoDetails_try env_no_video) = Inl err"
    by (rule fetchVideoDetails_degrades [OF miss, THEN conjunct1, THEN iffD2])
      (simp add: env_no_video_fields)
  with fetchVideoDetails_degrades [OF miss, of env_no_video]
  have first: "vr_result (fetchVideoDetails env_no_video ?url (new_cache stream_ttl))
     = \<lparr>d_title = ''Unknown'', d_meta = None, d_streams = []\<rparr>
   \<and> vr_session (fetchVideoDetails env_no_video ?url (new_cache stream_ttl))
     = [Launch, CloseBrowser]"
    by (simp add: env_no_video_fields)
  from try_constructor fetchVideoDetails_degrades [OF miss, of ?env]
  have second: "vr_result (fetchVideoDetails ?env ?url (new_cache stream_ttl))
     = \<lparr>d_title = ''Unknown'', d_meta = None, d_streams = []\<rparr>
   \<and> vr_session (fetchVideoDetails ?env ?url (new_cache stream_ttl))
     = [Launch, CloseBrowser, CloseBrowser]"
    by (simp add: env_of_fields)
  from first second try_constructor show ?thesis
    by simp
qed

lemma cache_get_later:
  assumes "now \<le> t"
  shows "fst (cache_get (snd (cache_get c key now)) k t) = fst (cache_get c k t)"
  using assms by (auto simp: cache_get_def split: option.splits)

lemma cache_get_miss_data:
  "fst (cache_get c key now) = None \<Longrightarrow> data (snd (cache_get c key now)) key = None"
  by (auto simp: cache_get_def split: option.splits if_splits)

lemma cache_get_other:
  "k \<noteq> key \<Longrightarrow> data (snd (cache_get c key now)) k = data c k"
  by (auto simp: cache_get_def split: option.splits)

lemma cache_get_entries:
  "data (snd (cache_get c key now)) k = Some it \<Longrightarrow> data c k = Some it"
  by (auto simp: cache_get_def split: option.splits if_splits)

lemma fetchVideoDetails_cache_cases:
  "vr_cache (fetchVideoDetails env url0 c) = snd (cache_get c (detailsKey url0) (e_now_get env))
   \<or> (\<exists>r. fst (fetchVideoDetails_try env) = Inr r
         \<and> vr_cache (fetchVideoDetails env url0 c)
             = cache_set (snd (cache_get c (detailsKey url0) (e_now_get env))) (detailsKey url0) r
                 None (e_now_set env))"
proof -
  obtain cached c1 where g: "cache_get c (detailsKey url0) (e_now_get env) = (cached, c1)"
    by (cases "cache_get c (detailsKey url0) (e_now_get env)")
  obtain res ev where t: "fetchVideoDetails_try env = (res, ev)"
    by (cases "fetchVideoDetails_try env")
  from g t show ?thesis
    by (cases cached; cases res) (simp_all add: fetchVideoDetails_def)
qed

text \<open>
  Claim C10. The body of the \<^verbatim>\<open>try\<close> throws exactly when an awaited call of the resolution
  fails or, after all of them, the composition of the streams throws. When a resolution
  throws after a cache miss, whatever the exception, the result is the degraded one and
  nothing is written: the cache is as the cache check left it, with no entry under the
  key of the detail page; it is the very same table when the key had no entry, every
  other key keeps its entry, and at any later time every \<^verbatim>\<open>get\<close> answers as it would have
  on the cache before the call. A later call for the same URL in which every step succeeds
  and the streams are composed launches a browser again and returns the composed result.
  Whatever the outcome, an entry found in the cache after a call was in it before the call
  or holds the result that the \<^verbatim>\<open>try\<close> composed.
\<close>

theorem failed_resolution_not_cached:
  "(fst (cache_get c (detailsKey url0) (e_now_get env)) = None
      \<and> (\<exists>err. fst (fetchVideoDetails_try env) = Inl err)
    \<longrightarrow> vr_result (fetchVideoDetails env url0 c) = degraded
      \<and> vr_cache (fetchVideoDetails env url0 c)
          = snd (cache_get c (detailsKey url0) (e_now_get env))
      \<and> data (vr_cache (fetchVideoDetails env url0 c)) (detailsKey url0) = None
      \<and> (data c (detailsKey url0) = None \<longrightarrow> vr_cache (fetchVideoDetails env url0 c) = c)
      \<and> (\<forall>k. k \<noteq> detailsKey url0 \<longrightarrow>
            data (vr_cache (fetchVideoDetails env url0 c)) k = data c k)
      \<and> (\<forall>k t. e_now_get env \<le> t \<longrightarrow>
            fst (cache_get (vr_cache (fetchVideoDetails env url0 c)) k t) = fst (cache_get c k t))
      \<and> (\<forall>env2 d meta streams.
            e_launch env2 \<and> e_newPage env2 \<and> e_intercept env2 \<and> e_goto env2 \<and> e_video env2
            \<and> e_dom env2 = Some d \<and> e_meta env2 = Some meta
            \<and> uniqueStreams (e_protocol env2) (e_proto_text env2) (m_title meta)
                (vd_subtitles (videoData d)) (streams_map env2 d) = Inr streams \<longrightarrow>
            vr_session (fetchVideoDetails env2 url0 (vr_cache (fetchVideoDetails env url0 c)))
              = [Launch, CloseBrowser]
            \<and> vr_result (fetchVideoDetails env2 url0 (vr_cache (fetchVideoDetails env url0 c)))
              = \<lparr>d_title = m_title meta, d_meta = Some meta, d_streams = streams\<rparr>))
   \<and> (\<forall>k it. data (vr_cache (fetchVideoDetails env url0 c)) k = Some it \<longrightarrow>
         data c k = Some it
         \<or> (k = detailsKey url0 \<and> fst (fetchVideoDetails_try env) = Inr (cvalue it)))
   \<and> ((\<exists>err. fst (fetchVideoDetails_try env) = Inl err) \<longleftrightarrow>
         \<not> (e_launch env \<and> e_newPage env \<and> e_intercept env \<and> e_goto env \<and> e_video env
              \<and> e_dom env \<noteq> None \<and> e_meta env \<noteq> None)
         \<or> (\<exists>d meta. e_dom env = Some d \<and> e_meta env = Some meta
               \<and> surviving (e_protocol env) (streams_map env d) \<noteq> []
               \<and> (\<exists>sub\<in>set (vd_subtitles (videoData d)). \<exists>k. sub_lang sub = Inherited k)))"
proof (intro conjI impI allI)
  assume h: "fst (cache_get c (detailsKey url0) (e_now_get env)) = None
      \<and> (\<exists>err. fst (fetchVideoDetails_try env) = Inl err)"
  then obtain err where miss: "fst (cache_get c (detailsKey url0) (e_now_get env)) = None"
    and thrown: "fst (fetchVideoDetails_try env) = Inl err"
    by blast
  note run = fetchVideoDetails_thrown [OF miss thrown]
  show "vr_result (fetchVideoDetails env url0 c) = degraded"
    by (subst run) simp
  show same: "vr_cache (fetchVideoDetails env url0 c)
      = snd (cache_get c (detailsKey url0) (e_now_get env))"
    by (subst run) simp
  show none: "data (vr_cache (fetchVideoDetails env url0 c)) (detailsKey url0) = None"
    unfolding same by (rule cache_get_miss_data [OF miss])
  show "vr_cache (fetchVideoDetails env url0 c) = c" if "data c (detailsKey url0) = None"
    unfolding same using that by (simp add: cache_get_def)
  show "data (vr_cache (fetchVideoDetails env url0 c)) k = data c k" if "k \<noteq> detailsKey url0" for k
    unfolding same using that by (rule cache_get_other)
  show "fst (cache_get (vr_cache (fetchVideoDetails env url0 c)) k t) = fst (cache_get c k t)"
    if "e_now_get env \<le> t" for k t
    unfolding same using that by (rule cache_get_later)
  fix env2 :: vd_env and d meta streams
  assume ok: "e_launch env2 \<and> e_newPage env2 \<and> e_intercept env2 \<and> e_goto env2 \<and> e_video env2
            \<and> e_dom env2 = Some d \<and> e_meta env2 = Some meta
            \<and> uniqueStreams (e_protocol env2) (e_proto_text env2) (m_title meta)
                (vd_subtitles (videoData d)) (streams_map env2 d) = Inr streams"
  from none have miss2: "fst (cache_get (vr_cache (fetchVideoDetails env url0 c)) (detailsKey url0)
      (e_now_get env2)) = None"
    by (simp add: cache_get_def)
  from ok have steps: "e_launch env2" "e_newPage env2" "e_intercept env2" "e_goto env2"
    "e_video env2" "e_dom env2 = Some d" "e_meta env2 = Some meta"
    "uniqueStreams (e_protocol env2) (e_proto_text env2) (m_title meta)
                (vd_subtitles (videoData d)) (streams_map env2 d) = Inr streams"
    by blast+
  note again = fetchVideoDetails_resolved [OF miss2 steps]
  show "vr_session (fetchVideoDetails env2 url0 (vr_cache (fetchVideoDetails env url0 c)))
      = [Launch, CloseBrowser]"
    by (subst again) simp
  show "vr_result (fetchVideoDetails env2 url0 (vr_cache (fetchVideoDetails env url0 c)))
      = \<lparr>d_title = m_title meta, d_meta = Some meta, d_streams = streams\<rparr>"
    by (subst again) simp
next
  fix k it
  assume stored: "data (vr_cache (fetchVideoDetails env url0 c)) k = Some it"
  from fetchVideoDetails_cache_cases [of env url0 c]
  show "data c k = Some it \<or> (k = detailsKey url0 \<and> fst (fetchVideoDetails_try env) = Inr (cvalue it))"
  proof
    assume "vr_cache (fetchVideoDetails env url0 c) = snd (cache_get c (detailsKey url0) (e_now_get env))"
    with stored have "data (snd (cache_get c (detailsKey url0) (e_now_get env))) k = Some it"
      by simp
    then have "data c k = Some it"
      by (rule cache_get_entries)
    then show ?thesis
      by simp
  next
    assume "\<exists>r. fst (fetchVideoDetails_try env) = Inr r
         \<and> vr_cache (fetchVideoDetails env url0 c)
             = cache_set (snd (cache_get c (detailsKey url0) (e_now_get env))) (detailsKey url0) r
                 None (e_now_set env)"
    then obtain r where r: "fst (fetchVideoDetails_try env) = Inr r"
      "vr_cache (fetchVideoDetails env url0 c)
             = cache_set (snd (cache_get c (detailsKey url0) (e_now_get env))) (detailsKey url0) r
                 None (e_now_set env)"
      by blast
    show ?thesis
    proof (cases "k = detailsKey url0")
      case True
      with stored r show ?thesis
        by (auto simp: cache_set_def)
    next
      case False
      with stored r have "data (snd (cache_get c (detailsKey url0) (e_now_get env))) k = Some it"
        by (simp add: cache_set_def)
      then have "data c k = Some it"
        by (rule cache_get_entries)
      then show ?thesis
        by simp
    qed
  qed
next
  show "(\<exists>err. fst (fetchVideoDetails_try env) = Inl err) \<longleftrightarrow>
         \<not> (e_launch env \<and> e_newPage env \<and> e_intercept env \<and> e_goto env \<and> e_video env
              \<and> e_dom env \<noteq> None \<and> e_meta env \<noteq> None)
         \<or> (\<exists>d meta. e_dom env = Some d \<and> e_meta env = Some meta
               \<and> surviving (e_protocol env) (streams_map env d) \<noteq> []
               \<and> (\<exists>sub\<in>set (vd_subtitles (videoData d)). \<exists>k. sub_lang sub = Inherited k))"
    unfolding try_fails_iff uniqueStreams_fails_iff by (rule refl)
qed


lemma uniqueStreams_none:
  "uniqueStreams protocol_simple proto_text_ex ''Alpha - 1'' []
     (streams_map (env_of [] dom_empty) dom_empty) = Inr []"
  by (simp add: uniqueStreams_def streams_map_def env_of_fields on_requests_def
      videoData_dom_empty surviving_def map_values_def sort_desc_def)

text \<open>The theorem on a cache whose entry for the page expired at time 5: a resolution at
  time 10 in which the video element never appears, or one in which the composition
  throws, followed by a successful one.\<close>

theorem failed_resolution_not_cached_witness:
  "data (vr_cache (fetchVideoDetails env_no_video ''https://hstream.moe/hentai/alpha-1'' cache_stale))
       ''details-https://hstream.moe/hentai/alpha-1'' = None
   \<and> vr_session (fetchVideoDetails (env_of [] dom_empty) ''https://hstream.moe/hentai/alpha-1''
        (vr_cache (fetchVideoDetails env_no_video ''https://hstream.moe/hentai/alpha-1'' cache_stale)))
     = [Launch, CloseBrowser]
   \<and> d_title (vr_result (fetchVideoDetails (env_of [] dom_empty) ''https://hstream.moe/hentai/alpha-1''
        (vr_cache (fetchVideoDetails env_no_video ''https://hstream.moe/hentai/alpha-1'' cache_stale))))
     = ''Alpha - 1''
   \<and> vr_result (fetchVideoDetails (env_of [''https://cdn.example/720/v.mp4''] dom_constructor)
        ''https://hstream.moe/hentai/alpha-1'' cache_stale) = degraded
   \<and> data (vr_cache (fetchVideoDetails (env_of [''https://cdn.example/720/v.mp4''] dom_constructor)
        ''https://hstream.moe/hentai/alpha-1'' cache_stale))
       ''details-https://hstream.moe/hentai/alpha-1'' = None"
proof -
  let ?url = "''https://hstream.moe/hentai/alpha-1''"
  let ?c = "vr_cache (fetchVideoDetails env_no_video ?url cache_stale)"
  let ?env = "env_of [''https://cdn.example/720/v.mp4''] dom_constructor"
  have key: "detailsKey ?url = ''details-https://hstream.moe/hentai/alpha-1''"
    by (simp add: detailsKey_def)
  have miss: "fst (cache_get cache_stale (detailsKey ?url) 10) = None"
    by (simp add: key cache_stale_def cache_get_def cache_set_def new_cache_def ttl_or_def)
  have miss1: "fst (cache_get cache_stale (detailsKey ?url) (e_now_get env_no_video)) = None"
    using miss by (simp add: env_no_video_fields)
  have miss2: "fst (cache_get cache_stale (detailsKey ?url) (e_now_get ?env)) = None"
    using miss by (simp add: env_of_fields)
  have "\<not> (e_launch env_no_video \<and> e_newPage env_no_video \<and> e_intercept env_no_video
      \<and> e_goto env_no_video \<and> e_video env_no_video \<and> e_dom env_no_video \<noteq> None
      \<and> e_meta env_no_video \<noteq> None)"
    by (simp add: env_no_video_fields)
  then have fail: "\<exists>err. fst (fetchVideoDetails_try env_no_video) = Inl err"
    by (simp add: try_fails_iff)
  note t = failed_resolution_not_cached [of cache_stale ?url env_no_video, THEN conjunct1, THEN mp,
      OF conjI [OF miss1 fail]]
  from t have gone: "data ?c (detailsKey ?url) = None"
    by blast
  from t have again: "\<forall>env2 d meta streams.
      e_launch env2 \<and> e_newPage env2 \<and> e_intercept env2 \<and> e_goto env2 \<and> e_video env2
        \<and> e_dom env2 = Some d \<and> e_meta env2 = Some meta
        \<and> uniqueStreams (e_protocol env2) (e_proto_text env2) (m_title meta)
                (vd_subtitles (videoData d)) (streams_map env2 d) = Inr streams \<longrightarrow>
      vr_session (fetchVideoDetails env2 ?url ?c) = [Launch, CloseBrowser]
      \<and> vr_result (fetchVideoDetails env2 ?url ?c)
          = \<lparr>d_title = m_title meta, d_meta = Some meta, d_streams = streams\<rparr>"
    by blast
  from again [rule_format, of "env_of [] dom_empty" dom_empty meta_ex "[]"]
  have later: "vr_session (fetchVideoDetails (env_of [] dom_empty) ?url ?c) = [Launch, CloseBrowser]
      \<and> d_title (vr_result (fetchVideoDetails (env_of [] dom_empty) ?url ?c)) = ''Alpha - 1''"
    by (simp add: env_of_fields meta_ex_title videoData_dom_empty uniqueStreams_none)
  from try_constructor have fail2: "\<exists>err. fst (fetchVideoDetails_try ?env) = Inl err"
    by simp
  note t2 = failed_resolution_not_cached [of cache_stale ?url ?env, THEN conjunct1, THEN mp,
      OF conjI [OF miss2 fail2]]
  from t2 have thrown: "vr_result (fetchVideoDetails ?env ?url cache_stale) = degraded"
    and kept: "data (vr_cache (fetchVideoDetails ?env ?url cache_stale)) (detailsKey ?url) = None"
    by blast+
  from gone later thrown kept key show ?thesis
    by simp
qed

end
